theory Spec2Isabelle
  imports Complex_Main "HOL-Library.Word"
begin

unbundle bit_operations_syntax

section \<open>Go library functions used by the chain-spec codec\<close>

type_synonym byte = "8 word"

text \<open>Go strings are byte sequences; \<open>string\<close> is a list of 8-bit characters.\<close>

definition HasPrefix :: "string \<Rightarrow> string \<Rightarrow> bool" where
  "HasPrefix s p \<longleftrightarrow> length p \<le> length s \<and> take (length p) s = p"

definition HasSuffix :: "string \<Rightarrow> string \<Rightarrow> bool" where
  "HasSuffix s p \<longleftrightarrow> length p \<le> length s \<and> drop (length s - length p) s = p"

definition TrimPrefix :: "string \<Rightarrow> string \<Rightarrow> string" where
  "TrimPrefix s p = (if HasPrefix s p then drop (length p) s else s)"

subsection \<open>encoding/hex\<close>

text \<open>\<open>fromHexChar\<close>: the value of a hexadecimal digit, upper or lower case.\<close>

definition fromHexChar :: "char \<Rightarrow> byte option" where
  "fromHexChar c =
     (let k = (of_char c :: nat) in
      if 48 \<le> k \<and> k \<le> 57 then Some (of_nat (k - 48))
      else if 97 \<le> k \<and> k \<le> 102 then Some (of_nat (k - 97 + 10))
      else if 65 \<le> k \<and> k \<le> 70 then Some (of_nat (k - 65 + 10))
      else None)"

text \<open>
  \<open>hex.DecodeString\<close>: the bytes of a string of hexadecimal digit pairs. An invalid
  digit (\<open>InvalidByteError\<close>) and an odd length (\<open>ErrLength\<close>) are both \<open>None\<close>: the
  callers only test \<open>err == nil\<close>.
\<close>

fun DecodeString :: "string \<Rightarrow> byte list option" where
  "DecodeString [] = Some []"
| "DecodeString [p] = None"
| "DecodeString (p # q # rest) =
     (case fromHexChar p of
        None \<Rightarrow> None
      | Some a \<Rightarrow>
         (case fromHexChar q of
            None \<Rightarrow> None
          | Some b \<Rightarrow>
             (case DecodeString rest of
                None \<Rightarrow> None
              | Some bs \<Rightarrow> Some ((push_bit 4 a OR b) # bs))))"

subsection \<open>strconv\<close>

definition is_digit :: "char \<Rightarrow> bool" where
  "is_digit c \<longleftrightarrow> 48 \<le> (of_char c :: nat) \<and> (of_char c :: nat) \<le> 57"

definition maxUint64 :: nat where
  "maxUint64 = 2 ^ 64 - 1"

text \<open>
  The digit loop of \<open>strconv.ParseUint(s, 10, 64)\<close>, with the accumulator \<open>n\<close>. A
  character that is not a decimal digit is a syntax error, an accumulator at or over the
  cutoff \<open>maxUint64/10 + 1\<close> or a sum over \<open>maxUint64\<close> is a range error; both are
  \<open>None\<close>.
\<close>

fun parse_digits :: "nat \<Rightarrow> string \<Rightarrow> nat option" where
  "parse_digits n [] = Some n"
| "parse_digits n (c # cs) =
     (if \<not> is_digit c then None
      else if n \<ge> maxUint64 div 10 + 1 then None
      else let n1 = n * 10 + (of_char c - 48) in
           if n1 > maxUint64 then None else parse_digits n1 cs)"

definition ParseUint :: "string \<Rightarrow> 64 word option" where
  "ParseUint s = (if s = [] then None else map_option of_nat (parse_digits 0 s))"

text \<open>
  \<open>strconv.ParseInt(s, 10, 64)\<close>: an optional sign, then \<open>ParseUint\<close>, then the range
  check against the cutoff \<open>2^63\<close>. The result is the two's-complement \<open>int64\<close>.
\<close>

definition ParseInt :: "string \<Rightarrow> 64 word option" where
  "ParseInt s =
     (case s of
        [] \<Rightarrow> None
      | c # cs \<Rightarrow>
         (let neg = (c = CHR ''-'');
              s' = (if c = CHR ''+'' \<or> c = CHR ''-'' then cs else s) in
          case ParseUint s' of
            None \<Rightarrow> None
          | Some un \<Rightarrow>
             if \<not> neg \<and> unat un \<ge> 2 ^ 63 then None
             else if neg \<and> unat un > 2 ^ 63 then None
             else Some (if neg then - un else un)))"

section \<open>Chain-spec values\<close>

text \<open>
  A wall-clock instant: Unix seconds as \<open>int64\<close>, and the nanoseconds within the second.
  \<open>time.Unix(sec, 0)\<close> is \<open>Time sec 0\<close>, and \<open>t.Unix()\<close> is the first field.
\<close>

datatype go_time = Time (Unix: "64 word") (Nanosecond: nat)

datatype phase0_uint =
  Phase0_Slot | Phase0_Epoch | Phase0_CommitteeIndex | Phase0_ValidatorIndex | Phase0_Gwei

datatype phase0_bytes =
    Phase0_Root | Phase0_Version | Phase0_DomainType | Phase0_ForkDigest
  | Phase0_Domain | Phase0_BLSPubKey | Phase0_BLSSignature

text \<open>The lengths of the fixed byte arrays.\<close>

fun width :: "phase0_bytes \<Rightarrow> nat" where
  "width Phase0_Root = 32"
| "width Phase0_Version = 4"
| "width Phase0_DomainType = 4"
| "width Phase0_ForkDigest = 4"
| "width Phase0_Domain = 32"
| "width Phase0_BLSPubKey = 48"
| "width Phase0_BLSSignature = 96"

text \<open>
  The dynamic values (\<open>any\<close>) the codec handles: the counters and byte arrays of
  package \<open>phase0\<close>, \<open>[]byte\<close>, \<open>time.Duration\<close> (signed 64-bit nanoseconds),
  \<open>time.Time\<close>, \<open>uint64\<close> and \<open>string\<close>. A \<open>VFixed k bs\<close> is well formed when
  \<open>length bs = width k\<close>. Values of other dynamic types are not modelled.
\<close>

datatype spec_value =
    VCounter phase0_uint "64 word"
  | VFixed phase0_bytes "byte list"
  | VBytes "byte list"
  | VDuration "64 word"
  | VTime go_time
  | VUint64 "64 word"
  | VString string

text \<open>\<open>var a [n]byte; copy(a[:], src)\<close>: a zeroed array, overwritten from the front.\<close>

definition copy_array :: "nat \<Rightarrow> byte list \<Rightarrow> byte list" where
  "copy_array n src = take n src @ replicate (n - length src) 0"

definition Second :: "64 word" where
  "Second = 1000000000"

section \<open>Decoding a stored chain-spec value\<close>

text \<open>
  \<open>dbValToSpec\<close> is a sequence of blocks, each returning when it applies and falling
  through otherwise. It is written from the last block backwards: each definition below
  is the body of the function from one block to the end.
\<close>

text \<open>Integers, then the string itself.\<close>

definition dbValToSpec_integers :: "string \<Rightarrow> spec_value" where
  "dbValToSpec_integers val =
     (if val = ''0'' then VUint64 0
      else case ParseUint val of
             Some intVal \<Rightarrow> if intVal \<noteq> 0 then VUint64 intVal else VString val
           | None \<Rightarrow> VString val)"

text \<open>Durations: \<open>time.Duration(intVal) * time.Second\<close> is a 64-bit product.\<close>

definition dbValToSpec_durations :: "string \<Rightarrow> string \<Rightarrow> spec_value" where
  "dbValToSpec_durations key val =
     (if HasPrefix key ''SECONDS_PER_'' \<or> HasSuffix key ''_DELAY'' then
        (case ParseUint val of
           Some intVal \<Rightarrow>
             if intVal \<noteq> 0 then VDuration (intVal * Second)
             else dbValToSpec_integers val
         | None \<Rightarrow> dbValToSpec_integers val)
      else dbValToSpec_integers val)"

text \<open>Times.\<close>

definition dbValToSpec_times :: "string \<Rightarrow> string \<Rightarrow> spec_value" where
  "dbValToSpec_times key val =
     (if HasSuffix key ''_TIME'' then
        (case ParseInt val of
           Some intVal \<Rightarrow>
             if intVal \<noteq> 0 then VTime (Time intVal 0)
             else dbValToSpec_durations key val
         | None \<Rightarrow> dbValToSpec_durations key val)
      else dbValToSpec_durations key val)"

text \<open>Hex strings.\<close>

definition dbValToSpec_hex :: "string \<Rightarrow> string \<Rightarrow> spec_value" where
  "dbValToSpec_hex key val =
     (if HasPrefix val ''0x'' then
        (case DecodeString (TrimPrefix val ''0x'') of
           Some byteVal \<Rightarrow> VBytes byteVal
         | None \<Rightarrow> dbValToSpec_times key val)
      else dbValToSpec_times key val)"

text \<open>Fork versions.\<close>

definition dbValToSpec_forks :: "string \<Rightarrow> string \<Rightarrow> spec_value" where
  "dbValToSpec_forks key val =
     (if HasSuffix key ''_FORK_VERSION'' then
        (case DecodeString (TrimPrefix val ''0x'') of
           Some byteVal \<Rightarrow> VFixed Phase0_Version (copy_array 4 byteVal)
         | None \<Rightarrow> dbValToSpec_hex key val)
      else dbValToSpec_hex key val)"

text \<open>Domains: the whole function.\<close>

definition dbValToSpec :: "string \<Rightarrow> string \<Rightarrow> spec_value" where
  "dbValToSpec key val =
     (if HasPrefix key ''DOMAIN_'' then
        (case DecodeString (TrimPrefix val ''0x'') of
           Some byteVal \<Rightarrow> VFixed Phase0_DomainType (copy_array 4 byteVal)
         | None \<Rightarrow> dbValToSpec_forks key val)
      else dbValToSpec_forks key val)"

section \<open>Encoding a chain-spec value\<close>

subsection \<open>Decimal and hexadecimal formatting\<close>

text \<open>
  The decimal digits of an unsigned number, without leading zeros (\<open>strconv.FormatUint\<close>
  in base 10, and the verb \<open>%d\<close>), read from the digit table of \<open>strconv\<close>.
\<close>

definition strconv_digits :: string where
  "strconv_digits = ''0123456789abcdefghijklmnopqrstuvwxyz''"

fun digits10 :: "nat \<Rightarrow> string" where
  "digits10 n =
     (if n < 10 then [strconv_digits ! n]
      else digits10 (n div 10) @ [strconv_digits ! (n mod 10)])"

declare digits10.simps [simp del]

text \<open>\<open>strconv.FormatInt(i, 10)\<close> and \<open>strconv.Itoa\<close>.\<close>

definition FormatInt :: "int \<Rightarrow> string" where
  "FormatInt i = (if i < 0 then CHR ''-'' # digits10 (nat (- i)) else digits10 (nat i))"

definition ldigits :: string where
  "ldigits = ''0123456789abcdefx''"

text \<open>
  \<open>fmt.Sprintf("%#x", b)\<close> on a byte slice (\<open>fmtSbx\<close>): two lower-case digits a byte
  after one leading \<open>0x\<close>; an empty slice prints as the empty string, without \<open>0x\<close>.
  The \<open>Format\<close> methods of the \<open>phase0\<close> byte arrays print the array's slice the same way.
\<close>

definition fmtSbx :: "byte list \<Rightarrow> string" where
  "fmtSbx b =
     (if b = [] then []
      else ''0x'' @ concat (map (\<lambda>c. [ldigits ! unat (drop_bit 4 c), ldigits ! unat (c AND 15)]) b))"

subsection \<open>\<open>time.Duration.Seconds\<close>\<close>

text \<open>Go's integer division truncates towards zero; the remainder has the dividend's sign.\<close>

definition quo :: "int \<Rightarrow> int \<Rightarrow> int" where
  "quo a b = (if (a < 0) = (b < 0) then \<bar>a\<bar> div \<bar>b\<bar> else - (\<bar>a\<bar> div \<bar>b\<bar>))"

definition rem :: "int \<Rightarrow> int \<Rightarrow> int" where
  "rem a b = sgn a * (\<bar>a\<bar> mod \<bar>b\<bar>)"

text \<open>
  \<open>float64\<close> arithmetic is the exact result rounded to the nearest number with a 53-bit
  significand, ties to even. The numbers met here are zero or between \<open>10^-9\<close> and
  \<open>10^10\<close> in magnitude, so the exponent range of the format plays no part.
\<close>

fun bit_length :: "nat \<Rightarrow> nat" where
  "bit_length n = (if n = 0 then 0 else Suc (bit_length (n div 2)))"

declare bit_length.simps [simp del]

text \<open>The exponent \<open>e\<close> with \<open>2^e \<le> a < 2^(e+1)\<close>, for \<open>a > 0\<close>.\<close>

definition ilog2 :: "rat \<Rightarrow> int" where
  "ilog2 a =
     (if 1 \<le> a then int (bit_length (nat \<lfloor>a\<rfloor>)) - 1
      else - int (bit_length (nat (\<lceil>1 / a\<rceil> - 1))))"

definition round_half_even :: "rat \<Rightarrow> int" where
  "round_half_even r =
     (let f = \<lfloor>r\<rfloor>; d = r - of_int f in
      if d < 1 / 2 then f
      else if 1 / 2 < d then f + 1
      else if even f then f else f + 1)"

definition round_f64 :: "rat \<Rightarrow> rat" where
  "round_f64 q =
     (if q = 0 then 0
      else let a = \<bar>q\<bar>; u = 2 powi (ilog2 a - 52)
           in sgn q * of_int (round_half_even (a / u)) * u)"

text \<open>
  \<open>sec := d / Second; nsec := d % Second; return float64(sec) + float64(nsec)/1e9\<close>
\<close>

definition Seconds :: "64 word \<Rightarrow> rat" where
  "Seconds d =
     (let sec = quo (sint d) 1000000000; nsec = rem (sint d) 1000000000
      in round_f64 (round_f64 (of_int sec) + round_f64 (round_f64 (of_int nsec) / 1000000000)))"

text \<open>\<open>int(x)\<close> on a \<open>float64\<close> discards the fraction.\<close>

definition float_to_int :: "rat \<Rightarrow> int" where
  "float_to_int x = (if 0 \<le> x then \<lfloor>x\<rfloor> else \<lceil>x\<rceil>)"

subsection \<open>The stored string\<close>

text \<open>
  The type switch of \<open>SetChainSpecValue\<close>: the value of \<open>dbVal\<close> for each dynamic
  type. \<open>uint64\<close> and \<open>string\<close> take the default case, \<open>fmt.Sprintf("%v", v)\<close>.
\<close>

fun dbVal_of :: "spec_value \<Rightarrow> string" where
  "dbVal_of (VCounter k v) = digits10 (unat v)"
| "dbVal_of (VFixed k b) = fmtSbx b"
| "dbVal_of (VBytes b) = fmtSbx b"
| "dbVal_of (VDuration d) = FormatInt (float_to_int (Seconds d))"
| "dbVal_of (VTime t) = FormatInt (sint (Unix t))"
| "dbVal_of (VUint64 v) = digits10 (unat v)"
| "dbVal_of (VString s) = s"

section \<open>The store\<close>

datatype error =
    ErrNoTransaction
  | ErrNoRows
  | ErrorNew string
  | Wrap error string
  | StoreError string
  | NilPointerPanic

text \<open>
  \<open>ErrorNew\<close> is \<open>errors.New\<close>, \<open>Wrap\<close> is \<open>errors.Wrap\<close>, \<open>StoreError\<close> is any error
  of the database driver other than \<open>pgx.ErrNoRows\<close>. \<open>NilPointerPanic\<close> is not a returned
  error: it stands for the run-time panic of a nil dereference.
\<close>

text \<open>\<open>errors.Is\<close>: the error, or an error it wraps, is the target.\<close>

fun errors_Is :: "error \<Rightarrow> error \<Rightarrow> bool" where
  "errors_Is (Wrap e m) target \<longleftrightarrow> Wrap e m = target \<or> errors_Is e target"
| "errors_Is e target \<longleftrightarrow> e = target"

text \<open>\<open>decimal.Decimal\<close>: the number \<open>dec_value * 10 ^ dec_exp\<close>.\<close>

record decimal =
  dec_value :: int
  dec_exp :: int

definition NewFromBigInt :: "int \<Rightarrow> int \<Rightarrow> decimal" where
  "NewFromBigInt v e = \<lparr>dec_value = v, dec_exp = e\<rparr>"

text \<open>\<open>Decimal.BigInt\<close>: the integer part, after rescaling to exponent 0.\<close>

definition BigInt :: "decimal \<Rightarrow> int" where
  "BigInt d =
     (if 0 \<le> dec_exp d then dec_value d * 10 ^ nat (dec_exp d)
      else quo (dec_value d) (10 ^ nat (- dec_exp d)))"

text \<open>
  \<open>chaindb.ExecutionPayload\<close> and \<open>chaindb.Block\<close>, with the fields this code reads.
  Byte arrays are byte lists (of 32, 20 or 256 bytes when well formed); a nil slice and a
  nil \<open>*big.Int\<close> are \<open>None\<close>. The type of \<open>ExcessDataGas\<close> is the parameter \<open>'g\<close>.
\<close>

record 'g execution_payload =
  ParentHash :: "byte list"
  FeeRecipient :: "byte list"
  StateRoot :: "byte list"
  ReceiptsRoot :: "byte list"
  LogsBloom :: "byte list"
  PrevRandao :: "byte list"
  BlockNumber :: "64 word"
  GasLimit :: "64 word"
  GasUsed :: "64 word"
  Timestamp :: "64 word"
  ExtraData :: "byte list option"
  BaseFeePerGas :: "int option"
  BlockHash :: "byte list"
  ExcessDataGas :: 'g

record 'g block =
  Root :: "byte list"
  ExecutionPayload :: "'g execution_payload option"

record genesis =
  GenesisTime :: go_time
  GenesisValidatorsRoot :: "byte list"
  GenesisForkVersion :: "byte list"

text \<open>A row of \<open>t_block_execution_payloads\<close>, without its key \<open>f_block_root\<close>.\<close>

record 'g payload_row =
  f_block_number :: "64 word"
  f_block_hash :: "byte list"
  f_parent_hash :: "byte list"
  f_fee_recipient :: "byte list"
  f_state_root :: "byte list"
  f_receipts_root :: "byte list"
  f_logs_bloom :: "byte list"
  f_prev_randao :: "byte list"
  f_gas_limit :: "64 word"
  f_gas_used :: "64 word"
  f_base_fee_per_gas :: decimal
  f_timestamp :: "64 word"
  f_extra_data :: "byte list option"
  f_excess_data_gas :: 'g

text \<open>
  The tables, each a list of rows under its unique key, and the state \<open>'w\<close> that the
  withdrawals store keeps.
\<close>

record ('g, 'w) db =
  t_genesis :: "(byte list \<times> go_time \<times> byte list) list"
  t_chain_spec :: "(string \<times> string) list"
  t_block_execution_payloads :: "(byte list \<times> 'g payload_row) list"
  t_withdrawals :: 'w

text \<open>\<open>INSERT ... ON CONFLICT (key) DO UPDATE\<close>: replace the row of the key, or add one.\<close>

fun upsert :: "'k \<Rightarrow> 'v \<Rightarrow> ('k \<times> 'v) list \<Rightarrow> ('k \<times> 'v) list" where
  "upsert k v [] = [(k, v)]"
| "upsert k v ((k', v') # t) = (if k' = k then (k, v) # t else (k', v') # upsert k v t)"

datatype 'g statement =
    InsertGenesis "byte list" go_time "byte list"
  | InsertChainSpec string string
  | InsertExecutionPayload "byte list" "'g payload_row"
  | SelectExecutionPayload "byte list"
  | SelectExecutionPayloads "byte list list"

text \<open>
  A transaction handle (\<open>pgx.Tx\<close>). What the database does beyond the tables is outside
  the code: \<open>exec_error\<close> is the error, if any, with which it refuses a statement, and
  \<open>scan_error\<close> the error, if any, of scanning a row into the destination variables.
\<close>

record 'g pgx_tx =
  exec_error :: "'g statement \<Rightarrow> error option"
  scan_error :: "'g payload_row \<Rightarrow> error option"

record 'g go_context =
  ctx_tx :: "'g pgx_tx option"

text \<open>
  Modelled from the spec: the transaction accessor \<open>s.tx(ctx)\<close>, whose code is not among
  the sources. "\<open>resolve(ctx) -> transactionHandle | none\<close>: non-failing lookup."
\<close>

definition tx :: "'g go_context \<Rightarrow> 'g pgx_tx option" where
  "tx ctx = ctx_tx ctx"

text \<open>\<open>tx.Exec\<close> of the three insert statements.\<close>

fun apply_statement :: "'g statement \<Rightarrow> ('g, 'w) db \<Rightarrow> ('g, 'w) db" where
  "apply_statement (InsertGenesis r t v) d = d\<lparr>t_genesis := upsert r (t, v) (t_genesis d)\<rparr>"
| "apply_statement (InsertChainSpec k v) d = d\<lparr>t_chain_spec := upsert k v (t_chain_spec d)\<rparr>"
| "apply_statement (InsertExecutionPayload r row) d =
     d\<lparr>t_block_execution_payloads := upsert r row (t_block_execution_payloads d)\<rparr>"
| "apply_statement (SelectExecutionPayload r) d = d"
| "apply_statement (SelectExecutionPayloads rs) d = d"

definition Exec :: "'g pgx_tx \<Rightarrow> 'g statement \<Rightarrow> ('g, 'w) db \<Rightarrow> error option \<times> ('g, 'w) db" where
  "Exec t stmt d =
     (case exec_error t stmt of
        Some e \<Rightarrow> (Some e, d)
      | None \<Rightarrow> (None, apply_statement stmt d))"

section \<open>The write entry points\<close>

definition SetGenesis ::
  "'g go_context \<Rightarrow> genesis option \<Rightarrow> ('g, 'w) db \<Rightarrow> error option \<times> ('g, 'w) db" where
  "SetGenesis ctx genesis d =
     (case tx ctx of
        None \<Rightarrow> (Some ErrNoTransaction, d)
      | Some t \<Rightarrow>
         (case genesis of
            None \<Rightarrow> (Some NilPointerPanic, d)
          | Some g \<Rightarrow>
             Exec t (InsertGenesis (GenesisValidatorsRoot g) (GenesisTime g)
                       (GenesisForkVersion g)) d))"

definition SetChainSpecValue ::
  "'g go_context \<Rightarrow> string \<Rightarrow> spec_value \<Rightarrow> ('g, 'w) db \<Rightarrow> error option \<times> ('g, 'w) db" where
  "SetChainSpecValue ctx key v d =
     (case tx ctx of
        None \<Rightarrow> (Some ErrNoTransaction, d)
      | Some t \<Rightarrow> Exec t (InsertChainSpec key (dbVal_of v)) d)"

text \<open>
  \<open>setExecutionPayload\<close>. The collaborator \<open>s.setWithdrawals\<close> is the parameter \<open>sw\<close>: it
  returns an error or not and changes the withdrawals store only.
\<close>

definition setExecutionPayload ::
  "('g go_context \<Rightarrow> 'g block \<Rightarrow> 'w \<Rightarrow> error option \<times> 'w) \<Rightarrow>
   'g go_context \<Rightarrow> 'g block option \<Rightarrow> ('g, 'w) db \<Rightarrow> error option \<times> ('g, 'w) db" where
  "setExecutionPayload sw ctx blk d =
     (case tx ctx of
        None \<Rightarrow> (Some ErrNoTransaction, d)
      | Some t \<Rightarrow>
     (case blk of
        None \<Rightarrow> (Some (ErrorNew ''block missing''), d)
      | Some b \<Rightarrow>
     (case ExecutionPayload b of
        None \<Rightarrow> (None, d)
      | Some p \<Rightarrow>
         if BlockHash p = replicate 32 0 then (None, d)
         else
           let extraData =
                 (if length (case ExtraData p of None \<Rightarrow> [] | Some x \<Rightarrow> x) > 0
                  then ExtraData p else None)
           in
           (case BaseFeePerGas p of
              None \<Rightarrow> (Some NilPointerPanic, d)
            | Some fee \<Rightarrow>
               (case Exec t
                       (InsertExecutionPayload (Root b)
                          \<lparr>f_block_number = BlockNumber p,
                           f_block_hash = BlockHash p,
                           f_parent_hash = ParentHash p,
                           f_fee_recipient = FeeRecipient p,
                           f_state_root = StateRoot p,
                           f_receipts_root = ReceiptsRoot p,
                           f_logs_bloom = LogsBloom p,
                           f_prev_randao = PrevRandao p,
                           f_gas_limit = GasLimit p,
                           f_gas_used = GasUsed p,
                           f_base_fee_per_gas = NewFromBigInt fee 0,
                           f_timestamp = Timestamp p,
                           f_extra_data = extraData,
                           f_excess_data_gas = ExcessDataGas p\<rparr>) d of
                  (Some err, d') \<Rightarrow> (Some err, d')
                | (None, d') \<Rightarrow>
                   (case sw ctx b (t_withdrawals d') of
                      (Some err, w') \<Rightarrow>
                        (Some (Wrap err ''failed to set withdrawals''), d'\<lparr>t_withdrawals := w'\<rparr>)
                    | (None, w') \<Rightarrow> (None, d'\<lparr>t_withdrawals := w'\<rparr>)))))))"

section \<open>Fetching execution payloads\<close>

text \<open>The payload built from a scanned row.\<close>

definition payload_of_row :: "'g payload_row \<Rightarrow> 'g execution_payload" where
  "payload_of_row row =
     \<lparr>ParentHash = copy_array 32 (f_parent_hash row),
      FeeRecipient = copy_array 20 (f_fee_recipient row),
      StateRoot = copy_array 32 (f_state_root row),
      ReceiptsRoot = copy_array 32 (f_receipts_root row),
      LogsBloom = copy_array 256 (f_logs_bloom row),
      PrevRandao = copy_array 32 (f_prev_randao row),
      BlockNumber = f_block_number row,
      GasLimit = f_gas_limit row,
      GasUsed = f_gas_used row,
      Timestamp = f_timestamp row,
      ExtraData = f_extra_data row,
      BaseFeePerGas = Some (BigInt (f_base_fee_per_gas row)),
      BlockHash = copy_array 32 (f_block_hash row),
      ExcessDataGas = f_excess_data_gas row\<rparr>"

text \<open>
  \<open>executionPayload\<close> returns a pointer and an error: \<open>Inr None\<close> is \<open>(nil, nil)\<close>,
  \<open>Inr (Some p)\<close> is \<open>(payload, nil)\<close>, \<open>Inl e\<close> is \<open>(nil, e)\<close>.
\<close>

definition QueryRow_Scan ::
  "'g pgx_tx \<Rightarrow> byte list \<Rightarrow> ('g, 'w) db \<Rightarrow> error + 'g payload_row" where
  "QueryRow_Scan t rt d =
     (case exec_error t (SelectExecutionPayload rt) of
        Some e \<Rightarrow> Inl e
      | None \<Rightarrow>
         (case map_of (t_block_execution_payloads d) rt of
            None \<Rightarrow> Inl ErrNoRows
          | Some row \<Rightarrow>
             (case scan_error t row of Some e \<Rightarrow> Inl e | None \<Rightarrow> Inr row)))"

definition executionPayload ::
  "'g pgx_tx \<Rightarrow> byte list \<Rightarrow> ('g, 'w) db \<Rightarrow> error + 'g execution_payload option" where
  "executionPayload t rt d =
     (case QueryRow_Scan t rt d of
        Inl err \<Rightarrow> if errors_Is err ErrNoRows then Inr None else Inl err
      | Inr row \<Rightarrow> Inr (Some (payload_of_row row)))"

text \<open>
  The loop of \<open>executionPayloads\<close> over the rows of the query, with the result map
  \<open>res\<close>; a map value is a pointer, \<open>Some p\<close> when not nil.
\<close>

fun scan_rows ::
  "'g pgx_tx \<Rightarrow> (byte list \<times> 'g payload_row) list \<Rightarrow>
   (byte list \<rightharpoonup> 'g execution_payload option) \<Rightarrow>
   error + (byte list \<rightharpoonup> 'g execution_payload option)" where
  "scan_rows t [] res = Inr res"
| "scan_rows t ((blockRoot, row) # rows) res =
     (case scan_error t row of
        Some err \<Rightarrow> Inl (Wrap err ''failed to scan row'')
      | None \<Rightarrow>
         scan_rows t rows (res(copy_array 32 blockRoot \<mapsto> Some (payload_of_row row))))"

definition executionPayloads ::
  "'g pgx_tx \<Rightarrow> byte list list \<Rightarrow> ('g, 'w) db \<Rightarrow>
   error + (byte list \<rightharpoonup> 'g execution_payload option)" where
  "executionPayloads t roots d =
     (case exec_error t (SelectExecutionPayloads roots) of
        Some err \<Rightarrow> Inl err
      | None \<Rightarrow>
         scan_rows t (filter (\<lambda>(r, row). r \<in> set roots) (t_block_execution_payloads d))
           Map.empty)"

section \<open>Hexadecimal strings\<close>

text \<open>
  A valid hexadecimal string: an even number of characters, each a hexadecimal digit of
  either case.
\<close>

definition is_hex_digit :: "char \<Rightarrow> bool" where
  "is_hex_digit c \<longleftrightarrow> c \<in> set ''0123456789abcdefABCDEF''"

definition valid_hex :: "string \<Rightarrow> bool" where
  "valid_hex s \<longleftrightarrow> even (length s) \<and> list_all is_hex_digit s"

section \<open>Type classes and the unambiguous range\<close>

text \<open>
  The type classes of the spec, and the class and content of a value: two values are
  equivalent within a type class when they have the same \<open>class_value\<close>. A counter and
  a \<open>uint64\<close> are unsigned integers, a fixed array and a byte slice are byte strings, and
  a timestamp counts with its Unix seconds.
\<close>

datatype value_class =
    UnsignedInteger "64 word"
  | ByteString "byte list"
  | DurationNanoseconds "64 word"
  | TimestampSeconds "64 word"
  | OpaqueString string

fun class_value :: "spec_value \<Rightarrow> value_class" where
  "class_value (VCounter k v) = UnsignedInteger v"
| "class_value (VUint64 v) = UnsignedInteger v"
| "class_value (VFixed k b) = ByteString b"
| "class_value (VBytes b) = ByteString b"
| "class_value (VDuration d) = DurationNanoseconds d"
| "class_value (VTime t) = TimestampSeconds (Unix t)"
| "class_value (VString s) = OpaqueString s"

text \<open>The key patterns of the decoder.\<close>

definition domain_key :: "string \<Rightarrow> bool" where
  "domain_key key \<longleftrightarrow> HasPrefix key ''DOMAIN_''"

definition fork_version_key :: "string \<Rightarrow> bool" where
  "fork_version_key key \<longleftrightarrow> HasSuffix key ''_FORK_VERSION''"

definition time_key :: "string \<Rightarrow> bool" where
  "time_key key \<longleftrightarrow> HasSuffix key ''_TIME''"

definition duration_key :: "string \<Rightarrow> bool" where
  "duration_key key \<longleftrightarrow> HasPrefix key ''SECONDS_PER_'' \<or> HasSuffix key ''_DELAY''"

text \<open>
  The range in which a value stored under a key is read back in its own class:
  \<^item> an unsigned integer, under a key of no pattern;
  \<^item> a byte string that is not empty, under a key that is neither a domain nor a
    fork-version key, or a byte string of four bytes under a domain or fork-version key;
  \<^item> a duration of a positive whole number of seconds, under a duration key that is not
    a domain, fork-version or time key;
  \<^item> a timestamp other than the epoch, under a time key that is not a domain key;
  \<^item> a string that is not hexadecimal, with or without \<open>0x\<close>, and is not a decimal
    integer, under any key.
\<close>

fun unambiguous :: "string \<Rightarrow> spec_value \<Rightarrow> bool" where
  "unambiguous key (VCounter k v) \<longleftrightarrow>
     \<not> domain_key key \<and> \<not> fork_version_key key \<and> \<not> time_key key \<and> \<not> duration_key key"
| "unambiguous key (VUint64 v) \<longleftrightarrow>
     \<not> domain_key key \<and> \<not> fork_version_key key \<and> \<not> time_key key \<and> \<not> duration_key key"
| "unambiguous key (VFixed k b) \<longleftrightarrow>
     (if domain_key key \<or> fork_version_key key then length b = 4 else b \<noteq> [])"
| "unambiguous key (VBytes b) \<longleftrightarrow>
     (if domain_key key \<or> fork_version_key key then length b = 4 else b \<noteq> [])"
| "unambiguous key (VDuration d) \<longleftrightarrow>
     duration_key key \<and> \<not> domain_key key \<and> \<not> fork_version_key key \<and> \<not> time_key key
     \<and> 0 < sint d \<and> sint d mod 1000000000 = 0"
| "unambiguous key (VTime t) \<longleftrightarrow> time_key key \<and> \<not> domain_key key \<and> Unix t \<noteq> 0"
| "unambiguous key (VString s) \<longleftrightarrow>
     DecodeString (TrimPrefix s ''0x'') = None \<and> ParseInt s = None \<and> ParseUint s = None"

section \<open>The eight decoding rules, in the words of the spec\<close>

text \<open>
  The decoded values of the spec, with numbers as numbers: a timestamp is a count of Unix
  seconds, a duration a count of seconds.
\<close>

datatype decoded =
    D_DomainType "byte list"
  | D_Version "byte list"
  | D_Bytes "byte list"
  | D_Timestamp int
  | D_Duration nat
  | D_Uint nat
  | D_String string

text \<open>A decimal number: one or more decimal digits, read in base ten.\<close>

definition decimal_digit :: "char \<Rightarrow> bool" where
  "decimal_digit c \<longleftrightarrow> c \<in> set ''0123456789''"

definition digit_value :: "char \<Rightarrow> nat" where
  "digit_value c = of_char c - of_char CHR ''0''"

definition decimal_number :: "string \<Rightarrow> nat option" where
  "decimal_number s =
     (if s \<noteq> [] \<and> list_all decimal_digit s
      then Some (foldl (\<lambda>a c. 10 * a + digit_value c) 0 s) else None)"

text \<open>The value parses as an unsigned integer: a decimal number below \<open>2^64\<close>.\<close>

definition unsigned_integer :: "string \<Rightarrow> nat option" where
  "unsigned_integer s =
     (case decimal_number s of
        Some n \<Rightarrow> if n < 2 ^ 64 then Some n else None
      | None \<Rightarrow> None)"

text \<open>
  The value parses as an integer: a decimal number with an optional sign, from \<open>-2^63\<close>
  to \<open>2^63 - 1\<close>.
\<close>

definition signed_integer :: "string \<Rightarrow> int option" where
  "signed_integer s =
     (case s of
        [] \<Rightarrow> None
      | c # cs \<Rightarrow>
         if c = CHR ''-'' then
           (case decimal_number cs of
              Some n \<Rightarrow> if n \<le> 2 ^ 63 then Some (- int n) else None
            | None \<Rightarrow> None)
         else
           (case decimal_number (if c = CHR ''+'' then cs else s) of
              Some n \<Rightarrow> if n < 2 ^ 63 then Some (int n) else None
            | None \<Rightarrow> None))"

text \<open>
  The value hex-decodes: after a leading \<open>0x\<close>, if there is one, it is a valid
  hexadecimal string; its bytes are its digit pairs.
\<close>

definition hex_digit_value :: "char \<Rightarrow> nat" where
  "hex_digit_value c =
     (if c \<in> set ''abcdef'' then of_char c - of_char CHR ''a'' + 10
      else if c \<in> set ''ABCDEF'' then of_char c - of_char CHR ''A'' + 10
      else of_char c - of_char CHR ''0'')"

fun hex_bytes :: "string \<Rightarrow> byte list" where
  "hex_bytes (a # b # rest) = of_nat (16 * hex_digit_value a + hex_digit_value b) # hex_bytes rest"
| "hex_bytes rest = []"

definition hex_decodes :: "string \<Rightarrow> byte list option" where
  "hex_decodes val =
     (let h = (if HasPrefix val ''0x'' then drop 2 val else val)
      in if valid_hex h then Some (hex_bytes h) else None)"

text \<open>A 4-byte array from the front of the decoded bytes.\<close>

definition four_bytes :: "byte list \<Rightarrow> byte list" where
  "four_bytes b = take 4 (b @ replicate 4 0)"

text \<open>The rules, each giving a value when it applies.\<close>

definition rule1 :: "string \<Rightarrow> string \<Rightarrow> decoded option" where
  "rule1 key val =
     (if HasPrefix key ''DOMAIN_''
      then map_option (\<lambda>b. D_DomainType (four_bytes b)) (hex_decodes val) else None)"

definition rule2 :: "string \<Rightarrow> string \<Rightarrow> decoded option" where
  "rule2 key val =
     (if HasSuffix key ''_FORK_VERSION''
      then map_option (\<lambda>b. D_Version (four_bytes b)) (hex_decodes val) else None)"

definition rule3 :: "string \<Rightarrow> string \<Rightarrow> decoded option" where
  "rule3 key val = (if HasPrefix val ''0x'' then map_option D_Bytes (hex_decodes val) else None)"

definition rule4 :: "string \<Rightarrow> string \<Rightarrow> decoded option" where
  "rule4 key val =
     (if HasSuffix key ''_TIME'' then
        (case signed_integer val of
           Some i \<Rightarrow> if i \<noteq> 0 then Some (D_Timestamp i) else None
         | None \<Rightarrow> None)
      else None)"

definition rule5 :: "string \<Rightarrow> string \<Rightarrow> decoded option" where
  "rule5 key val =
     (if HasPrefix key ''SECONDS_PER_'' \<or> HasSuffix key ''_DELAY'' then
        (case unsigned_integer val of
           Some n \<Rightarrow> if n \<noteq> 0 then Some (D_Duration n) else None
         | None \<Rightarrow> None)
      else None)"

definition rule6 :: "string \<Rightarrow> string \<Rightarrow> decoded option" where
  "rule6 key val = (if val = ''0'' then Some (D_Uint 0) else None)"

definition rule7 :: "string \<Rightarrow> string \<Rightarrow> decoded option" where
  "rule7 key val =
     (case unsigned_integer val of
        Some n \<Rightarrow> if n \<noteq> 0 then Some (D_Uint n) else None
      | None \<Rightarrow> None)"

text \<open>First match wins; rule 8 is the raw string.\<close>

fun first_match :: "'a option list \<Rightarrow> 'a option" where
  "first_match [] = None"
| "first_match (Some x # rest) = Some x"
| "first_match (None # rest) = first_match rest"

definition Decode :: "string \<Rightarrow> string \<Rightarrow> decoded" where
  "Decode key val =
     (case first_match
             [rule1 key val, rule2 key val, rule3 key val, rule4 key val, rule5 key val,
              rule6 key val, rule7 key val] of
        Some v \<Rightarrow> v
      | None \<Rightarrow> D_String val)"

text \<open>
  What a value returned by \<open>dbValToSpec\<close> stands for: a \<open>time.Duration\<close> stands for a
  count of seconds when it is a whole, non-negative number of seconds.
\<close>

fun meaning :: "spec_value \<Rightarrow> decoded option" where
  "meaning (VFixed Phase0_DomainType b) = Some (D_DomainType b)"
| "meaning (VFixed Phase0_Version b) = Some (D_Version b)"
| "meaning (VFixed k b) = None"
| "meaning (VBytes b) = Some (D_Bytes b)"
| "meaning (VTime t) = (if Nanosecond t = 0 then Some (D_Timestamp (sint (Unix t))) else None)"
| "meaning (VDuration d) =
     (if 0 \<le> sint d \<and> sint d mod 1000000000 = 0
      then Some (D_Duration (nat (sint d div 1000000000))) else None)"
| "meaning (VUint64 v) = Some (D_Uint (unat v))"
| "meaning (VString s) = Some (D_String s)"
| "meaning (VCounter k v) = None"

section \<open>Example data\<close>

text \<open>A store that accepts every statement, and one that refuses every statement.\<close>

definition accepting_tx :: "unit pgx_tx" where
  "accepting_tx = \<lparr>exec_error = (\<lambda>stmt. None), scan_error = (\<lambda>row. None)\<rparr>"

definition refusing_tx :: "unit pgx_tx" where
  "refusing_tx =
     \<lparr>exec_error = (\<lambda>stmt. Some (StoreError ''refused'')), scan_error = (\<lambda>row. None)\<rparr>"

definition ctx_with :: "unit pgx_tx \<Rightarrow> unit go_context" where
  "ctx_with t = \<lparr>ctx_tx = Some t\<rparr>"

definition ctx_without_tx :: "unit go_context" where
  "ctx_without_tx = \<lparr>ctx_tx = None\<rparr>"

definition empty_db :: "(unit, unit) db" where
  "empty_db =
     \<lparr>t_genesis = [], t_chain_spec = [], t_block_execution_payloads = [], t_withdrawals = ()\<rparr>"

definition no_withdrawals :: "unit go_context \<Rightarrow> unit block \<Rightarrow> unit \<Rightarrow> error option \<times> unit" where
  "no_withdrawals ctx b w = (None, w)"

text \<open>A payload with the given block hash, extra data and base fee, and a block for it.\<close>

definition example_payload ::
  "byte list \<Rightarrow> byte list option \<Rightarrow> int option \<Rightarrow> unit execution_payload" where
  "example_payload h x fee =
     \<lparr>ParentHash = replicate 32 1, FeeRecipient = replicate 20 2, StateRoot = replicate 32 3,
      ReceiptsRoot = replicate 32 4, LogsBloom = replicate 256 0, PrevRandao = replicate 32 5,
      BlockNumber = 17000000, GasLimit = 30000000, GasUsed = 12345678,
      Timestamp = 1681338455, ExtraData = x, BaseFeePerGas = fee, BlockHash = h,
      ExcessDataGas = ()\<rparr>"

definition example_block :: "byte \<Rightarrow> unit execution_payload option \<Rightarrow> unit block" where
  "example_block r p = \<lparr>Root = replicate 32 r, ExecutionPayload = p\<rparr>"

definition example_genesis :: genesis where
  "example_genesis =
     \<lparr>GenesisTime = Time 1606824023 0, GenesisValidatorsRoot = replicate 32 75,
      GenesisForkVersion = [0, 0, 0, 0]\<rparr>"

text \<open>
  The key of \<open>t_block_execution_payloads\<close> is unique and is a 32-byte block root.
\<close>

definition wf_payload_table :: "(byte list \<times> 'g payload_row) list \<Rightarrow> bool" where
  "wf_payload_table tbl \<longleftrightarrow>
     distinct (map fst tbl) \<and> list_all (\<lambda>k. length k = 32) (map fst tbl)"

text \<open>The store after the payloads of two blocks, with roots \<open>1...\<close> and \<open>3...\<close>, are set.\<close>

definition two_rows_db :: "(unit, unit) db" where
  "two_rows_db =
     snd (setExecutionPayload no_withdrawals (ctx_with accepting_tx)
            (Some (example_block 3 (Some (example_payload (replicate 32 9) None (Some 7)))))
       (snd (setExecutionPayload no_withdrawals (ctx_with accepting_tx)
            (Some (example_block 1 (Some (example_payload (replicate 32 8) (Some [1, 2]) (Some 9)))))
            empty_db)))"

section \<open>Decimal strings parse back\<close>

lemma digit_cases: "(d::nat) < 10 \<Longrightarrow> d \<in> {0, 1, 2, 3, 4, 5, 6, 7, 8, 9}"
  by simp arith

lemma is_digit_char_of: "(d::nat) < 10 \<Longrightarrow> is_digit (strconv_digits ! d)"
  using digit_cases [of d] by (auto simp: is_digit_def strconv_digits_def)

lemma of_char_digit: "(d::nat) < 10 \<Longrightarrow> (of_char (strconv_digits ! d) :: nat) - 48 = d"
  using digit_cases [of d] by (auto simp: strconv_digits_def)

lemma digits10_not_Nil: "digits10 n \<noteq> []"
  by (subst digits10.simps) simp

lemma digits10_all_digits: "\<forall>c \<in> set (digits10 n). is_digit c"
proof (induction n rule: digits10.induct)
  case (1 n)
  show ?case
  proof (cases "n < 10")
    case True
    then show ?thesis by (subst digits10.simps) (simp add: is_digit_char_of)
  next
    case False
    with 1 show ?thesis
      by (subst digits10.simps) (simp add: is_digit_char_of)
  qed
qed

lemma parse_digits_append:
  "parse_digits a (xs @ ys) =
     (case parse_digits a xs of None \<Rightarrow> None | Some b \<Rightarrow> parse_digits b ys)"
  by (induction xs arbitrary: a) (auto simp: Let_def)

lemma parse_digits_digits10:
  "n \<le> maxUint64 \<Longrightarrow> parse_digits 0 (digits10 n) = Some n"
proof (induction n rule: digits10.induct)
  case (1 n)
  show ?case
  proof (cases "n < 10")
    case True
    with 1(2) show ?thesis
      by (subst digits10.simps) (simp add: is_digit_char_of of_char_digit maxUint64_def)
  next
    case False
    have le: "n div 10 \<le> maxUint64" using 1(2) by simp
    have ih: "parse_digits 0 (digits10 (n div 10)) = Some (n div 10)"
      using 1(1) False le by simp
    have c: "\<not> maxUint64 div 10 + 1 \<le> n div 10"
      using 1(2) by (simp add: maxUint64_def)
    have d: "n div 10 * 10 + n mod 10 = n" by simp
    show ?thesis
      using False ih c d 1(2)
      by (subst digits10.simps)
         (simp add: parse_digits_append is_digit_char_of of_char_digit Let_def)
  qed
qed

lemma ParseUint_digits10: "ParseUint (digits10 (unat (v :: 64 word))) = Some v"
proof -
  have "unat v < 2 ^ 64"
    using unsigned_less [of v, where 'a = nat] by simp
  then have "unat v \<le> maxUint64"
    unfolding maxUint64_def by linarith
  then show ?thesis
    by (simp add: ParseUint_def digits10_not_Nil parse_digits_digits10)
qed


lemma ParseUint_digits10_nat:
  "n \<le> maxUint64 \<Longrightarrow> ParseUint (digits10 n) = Some (of_nat n)"
  by (simp add: ParseUint_def digits10_not_Nil parse_digits_digits10)

lemma digits10_hd: "\<exists>c cs. digits10 n = c # cs \<and> is_digit c"
proof -
  obtain c cs where e: "digits10 n = c # cs"
    using digits10_not_Nil [of n] by (cases "digits10 n") auto
  moreover have "is_digit c"
    using digits10_all_digits [of n] e by simp
  ultimately show ?thesis by blast
qed

lemma is_digit_not_sign: "is_digit c \<Longrightarrow> c \<noteq> CHR ''-'' \<and> c \<noteq> CHR ''+'' \<and> c \<noteq> CHR ''x''"
  by (auto simp: is_digit_def)

lemma unat_of_nat64: "n < 2 ^ 64 \<Longrightarrow> unat (of_nat n :: 64 word) = n"
  by (simp add: unat_of_nat)

lemma ParseInt_FormatInt:
  assumes "- (2 ^ 63) \<le> i" "i < 2 ^ 63"
  shows "ParseInt (FormatInt i) = Some (of_int i)"
proof (cases "i < 0")
  case False
  obtain c cs where e: "digits10 (nat i) = c # cs" and dc: "is_digit c"
    using digits10_hd by blast
  have le: "nat i \<le> maxUint64" using assms by (simp add: maxUint64_def)
  have pu: "ParseUint (c # cs) = Some (of_nat (nat i))"
    using ParseUint_digits10_nat [OF le] e by simp
  have "nat i < 2 ^ 64" using assms False by simp
  then have un: "unat (of_nat (nat i) :: 64 word) = nat i"
    by (rule unat_of_nat64)
  have lt: "\<not> (2 ^ 63 \<le> nat i)" using assms False by simp
  show ?thesis
    using False e pu un lt is_digit_not_sign [OF dc]
    by (simp add: ParseInt_def FormatInt_def Let_def)
next
  case True
  have le: "nat (- i) \<le> maxUint64" using assms by (simp add: maxUint64_def)
  have pu: "ParseUint (digits10 (nat (- i))) = Some (of_nat (nat (- i)))"
    using ParseUint_digits10_nat [OF le] .
  have "nat (- i) < 2 ^ 64" using assms True by simp
  then have un: "unat (of_nat (nat (- i)) :: 64 word) = nat (- i)"
    by (rule unat_of_nat64)
  have lt: "\<not> (2 ^ 63 < nat (- i))" using assms True by simp
  have r: "- (of_nat (nat (- i)) :: 64 word) = of_int i"
    using True by simp
  show ?thesis
    using True pu un lt r
    by (simp add: ParseInt_def FormatInt_def Let_def)
qed

lemma ParseInt_FormatInt_sint: "ParseInt (FormatInt (sint (t :: 64 word))) = Some t"
proof -
  have "- (2 ^ 63) \<le> sint t" using sint_ge [of t] by simp
  moreover have "sint t < 2 ^ 63" using sint_lt [of t] by simp
  ultimately show ?thesis using ParseInt_FormatInt [of "sint t"] by simp
qed

section \<open>Hexadecimal strings decode back\<close>

lemma fromHexChar_ldigits:
  assumes "n < 16"
  shows "fromHexChar (ldigits ! n) = Some (of_nat n)"
proof -
  from assms have "n \<in> {0, 1, 2, 3, 4, 5, 6, 7, 8, 9, 10, 11, 12, 13, 14, 15}"
    by simp arith
  then show ?thesis
    by (auto simp: ldigits_def fromHexChar_def)
qed

lemma byte_nibbles: "push_bit 4 (drop_bit 4 c) OR (c AND 15) = (c :: byte)"
proof -
  have "(15 :: byte) = mask 4" by (simp add: mask_eq_exp_minus_1)
  then show ?thesis
    by (simp add: bit_eq_iff bit_simps) (auto)
qed

lemma hi_nibble_less: "unat (drop_bit 4 (c :: byte)) < 16"
proof -
  have "unat c < 256" using unsigned_less [of c, where 'a = nat] by simp
  then show ?thesis by (simp add: drop_bit_eq_div unat_div)
qed

lemma lo_nibble_less: "unat ((c :: byte) AND 15) < 16"
proof -
  have "c AND 15 = take_bit 4 c"
    by (simp add: take_bit_eq_mask mask_eq_exp_minus_1)
  then show ?thesis
    by (simp add: take_bit_eq_mod unat_mod)
qed

lemma DecodeString_hex:
  "DecodeString (concat (map (\<lambda>c. [ldigits ! unat (drop_bit 4 c), ldigits ! unat (c AND 15)]) b)) = Some b"
  by (induction b)
     (simp_all add: fromHexChar_ldigits hi_nibble_less lo_nibble_less byte_nibbles)

section \<open>Whole seconds of a duration\<close>

lemma bit_length_le: "m < 2 ^ k \<Longrightarrow> bit_length m \<le> k"
proof (induction k arbitrary: m)
  case 0
  then show ?case by (subst bit_length.simps) simp
next
  case (Suc k)
  have "m div 2 < 2 ^ k" using Suc.prems by simp
  then have "bit_length (m div 2) \<le> k" by (rule Suc.IH)
  then show ?case by (subst bit_length.simps) simp
qed

lemma round_half_even_int: "round_half_even (of_int z) = z"
  by (simp add: round_half_even_def)

lemma round_f64_int:
  assumes "\<bar>n\<bar> < 2 ^ 53"
  shows "round_f64 (of_int n) = of_int n"
proof (cases "n = 0")
  case True
  then show ?thesis by (simp add: round_f64_def)
next
  case False
  define a :: rat where "a = \<bar>of_int n\<bar>"
  define k where "k = 53 - bit_length (nat \<bar>n\<bar>)"
  have a1: "1 \<le> a" using False by (simp add: a_def)
  have fl: "nat \<lfloor>a\<rfloor> = nat \<bar>n\<bar>" by (simp add: a_def flip: of_int_abs)
  have "nat \<bar>n\<bar> < 2 ^ 53" using assms by simp
  then have bl: "bit_length (nat \<bar>n\<bar>) \<le> 53" by (rule bit_length_le)
  have e: "ilog2 a - 52 = - int k"
    using a1 bl by (simp add: ilog2_def fl k_def)
  have u: "(2 :: rat) powi (ilog2 a - 52) = 1 / 2 ^ k"
    by (simp add: e power_int_minus divide_simps)
  have au: "a / (1 / 2 ^ k) = of_int (\<bar>n\<bar> * 2 ^ k)"
    by (simp add: a_def)
  have "round_f64 (of_int n) = sgn (of_int n) * of_int (\<bar>n\<bar> * 2 ^ k) * (1 / 2 ^ k)"
    using False unfolding round_f64_def Let_def a_def [symmetric] u au round_half_even_int
    by simp
  also have "\<dots> = sgn (of_int n) * \<bar>of_int n\<bar>"
    by simp
  also have "\<dots> = of_int n"
    by (simp add: sgn_mult_abs)
  finally show ?thesis .
qed

lemma quo_whole: "quo (s * 1000000000) 1000000000 = s"
  by (cases "s < 0") (simp_all add: quo_def abs_mult)

lemma rem_whole: "rem (s * 1000000000) 1000000000 = 0"
  by (simp add: rem_def abs_mult)

lemma float_to_int_of_int: "float_to_int (of_int s) = s"
  by (simp add: float_to_int_def)

lemma Seconds_whole:
  assumes "sint d = s * 1000000000"
  shows "float_to_int (Seconds d) = s"
proof -
  have "\<bar>sint d\<bar> \<le> 2 ^ 63"
    using sint_ge [of d] sint_lt [of d] by simp
  then have "\<bar>s\<bar> < 2 ^ 53" using assms by (simp add: abs_mult)
  then have r: "round_f64 (of_int s) = of_int s" by (rule round_f64_int)
  have z: "round_f64 0 = 0" by (simp add: round_f64_def)
  show ?thesis
    by (simp add: Seconds_def assms quo_whole rem_whole r z float_to_int_of_int)
qed

section \<open>Facts about the decoder\<close>

lemmas dbValToSpec_blocks =
  dbValToSpec_def dbValToSpec_forks_def dbValToSpec_hex_def dbValToSpec_times_def
  dbValToSpec_durations_def dbValToSpec_integers_def

lemma HasPrefix_0x_mem: "HasPrefix s ''0x'' \<Longrightarrow> CHR ''x'' \<in> set s"
  by (cases s; cases "tl s") (auto simp: HasPrefix_def)

lemma digits10_no_0x: "\<not> HasPrefix (digits10 n) ''0x''"
  using HasPrefix_0x_mem [of "digits10 n"] digits10_all_digits [of n] is_digit_not_sign
  by blast

lemma FormatInt_no_0x: "\<not> HasPrefix (FormatInt i) ''0x''"
proof
  assume "HasPrefix (FormatInt i) ''0x''"
  then have "CHR ''x'' \<in> set (FormatInt i)" by (rule HasPrefix_0x_mem)
  then have "CHR ''x'' \<in> set (digits10 (nat \<bar>i\<bar>))"
    by (cases "i < 0") (auto simp: FormatInt_def)
  then show False
    using digits10_all_digits is_digit_not_sign by blast
qed

lemma HasSuffix_last: "HasSuffix s p \<Longrightarrow> p \<noteq> [] \<Longrightarrow> last s = last p"
  by (metis HasSuffix_def last_drop length_greater_0_conv diff_less leD le_neq_implies_less not_less zero_less_diff drop_all)

lemma TIME_not_FORK_VERSION: "HasSuffix key ''_TIME'' \<Longrightarrow> \<not> HasSuffix key ''_FORK_VERSION''"
  using HasSuffix_last [of key "''_TIME''"] HasSuffix_last [of key "''_FORK_VERSION''"]
  by auto

lemma fmtSbx_decodes: "DecodeString (TrimPrefix (fmtSbx b) ''0x'') = Some b"
  by (simp add: fmtSbx_def TrimPrefix_def HasPrefix_def DecodeString_hex)

lemma fmtSbx_prefix: "b \<noteq> [] \<Longrightarrow> HasPrefix (fmtSbx b) ''0x''"
  by (simp add: fmtSbx_def HasPrefix_def)

lemma copy_array_id: "length b = n \<Longrightarrow> copy_array n b = b"
  by (simp add: copy_array_def)

lemma decode_zero: "dbValToSpec key ''0'' = VUint64 0"
  by (simp add: dbValToSpec_blocks HasPrefix_def TrimPrefix_def ParseUint_def ParseInt_def
      is_digit_def maxUint64_def)

section \<open>A stored zero\<close>

lemma decode_never_epoch_zero: "dbValToSpec key val \<noteq> VTime (Time 0 n)"
  by (auto simp: dbValToSpec_blocks split: if_splits option.splits)

text \<open>
  Claim C3. Under every key, and so under every key that ends in \<open>_TIME\<close>, begins with
  \<open>SECONDS_PER_\<close> or ends in \<open>_DELAY\<close>, the stored string \<open>0\<close> decodes to the unsigned
  integer zero: not to a timestamp of epoch zero and not to a zero duration. The time rule
  applies to a non-zero integer only, so no stored string at all decodes to the epoch.
\<close>

theorem stored_zero_decodes_to_uint_zero:
  "dbValToSpec key ''0'' = VUint64 0
   \<and> dbValToSpec key ''0'' \<noteq> VTime (Time 0 0)
   \<and> dbValToSpec key ''0'' \<noteq> VDuration 0
   \<and> dbValToSpec key val \<noteq> VTime (Time 0 n)"
  by (simp add: decode_zero decode_never_epoch_zero)

section \<open>Writing and fetching execution payloads\<close>

text \<open>
  Claim C4. With no transaction bound to the context, \<open>SetGenesis\<close>,
  \<open>SetChainSpecValue\<close> and \<open>setExecutionPayload\<close> each return \<open>ErrNoTransaction\<close> and
  leave the store as it was, whatever their other arguments.
\<close>

theorem writes_need_transaction:
  assumes "tx ctx = None"
  shows "SetGenesis ctx g d = (Some ErrNoTransaction, d)
       \<and> SetChainSpecValue ctx key v d = (Some ErrNoTransaction, d)
       \<and> setExecutionPayload sw ctx blk d = (Some ErrNoTransaction, d)"
  using assms by (simp add: SetGenesis_def SetChainSpecValue_def setExecutionPayload_def)

lemma skip_returns:
  assumes "tx ctx = Some t"
    and "ExecutionPayload b = None \<or> (\<exists>p. ExecutionPayload b = Some p \<and> BlockHash p = replicate 32 0)"
  shows "setExecutionPayload sw ctx (Some b) d = (None, d)"
  using assms by (auto simp: setExecutionPayload_def)

lemma fetch_no_row:
  assumes "exec_error t (SelectExecutionPayload r) = None"
    and "map_of (t_block_execution_payloads d) r = None"
  shows "executionPayload t r d = Inr None"
  using assms by (simp add: executionPayload_def QueryRow_Scan_def)

text \<open>
  Claim C5. Within a transaction, a block without an execution payload, and a block whose
  payload has the all-zero 32-byte block hash, make \<open>setExecutionPayload\<close> return no error
  and leave the store unchanged; if the block root had no row, a fetch of that root after
  the call reports no row and no error.
\<close>

theorem empty_payload_is_skipped:
  assumes "tx ctx = Some t"
    and "ExecutionPayload b = None \<or> (\<exists>p. ExecutionPayload b = Some p \<and> BlockHash p = replicate 32 0)"
  shows "setExecutionPayload sw ctx (Some b) d = (None, d)
       \<and> (exec_error t' (SelectExecutionPayload (Root b)) = None \<and>
          map_of (t_block_execution_payloads d) (Root b) = None \<longrightarrow>
          executionPayload t' (Root b) (snd (setExecutionPayload sw ctx (Some b) d)) = Inr None)"
  using skip_returns [OF assms, of sw d] by (simp add: fetch_no_row)

lemma refused_insert_fails:
  assumes "tx ctx = Some t" and "\<forall>stmt. exec_error t stmt = Some e"
    and "ExecutionPayload b = Some p" and "BlockHash p \<noteq> replicate 32 0"
  shows "fst (setExecutionPayload sw ctx (Some b) d) \<noteq> None"
  using assms by (auto simp: setExecutionPayload_def Exec_def Let_def split: option.splits)

text \<open>
  Claim C9. Within a transaction, \<open>setExecutionPayload\<close> on a nil block returns the error
  \<open>block missing\<close>. The silent skips are exactly the nil payload and the all-zero block
  hash: on a store that refuses every statement, a call on a block returns no error if
  and only if the block is one of these two.
\<close>

theorem nil_block_is_an_error:
  assumes "tx ctx = Some t"
  shows "setExecutionPayload sw ctx None d = (Some (ErrorNew ''block missing''), d)
       \<and> ((\<forall>stmt. exec_error t stmt = Some e) \<longrightarrow>
            (fst (setExecutionPayload sw ctx (Some b) d) = None \<longleftrightarrow>
             ExecutionPayload b = None \<or>
             (\<exists>p. ExecutionPayload b = Some p \<and> BlockHash p = replicate 32 0)))"
proof -
  have 1: "setExecutionPayload sw ctx None d = (Some (ErrorNew ''block missing''), d)"
    using assms by (simp add: setExecutionPayload_def)
  have 2: "fst (setExecutionPayload sw ctx (Some b) d) = None \<longleftrightarrow>
             ExecutionPayload b = None \<or>
             (\<exists>p. ExecutionPayload b = Some p \<and> BlockHash p = replicate 32 0)"
    if r: "\<forall>stmt. exec_error t stmt = Some e"
  proof (cases "ExecutionPayload b = None \<or>
             (\<exists>p. ExecutionPayload b = Some p \<and> BlockHash p = replicate 32 0)")
    case True
    then show ?thesis using skip_returns [OF assms True, of sw d] by simp
  next
    case False
    then obtain p where "ExecutionPayload b = Some p" "BlockHash p \<noteq> replicate 32 0"
      by auto
    then show ?thesis using refused_insert_fails [OF assms r, of b p sw d] False by blast
  qed
  show ?thesis using 1 2 by blast
qed

lemmas example_defs =
  accepting_tx_def refusing_tx_def ctx_with_def ctx_without_tx_def empty_db_def
  no_withdrawals_def example_payload_def example_block_def example_genesis_def tx_def

theorem writes_need_transaction_witness:
  "tx ctx_without_tx = None
   \<and> SetGenesis ctx_without_tx (Some example_genesis) empty_db = (Some ErrNoTransaction, empty_db)
   \<and> SetChainSpecValue ctx_without_tx ''SECONDS_PER_SLOT'' (VDuration 12000000000) empty_db
       = (Some ErrNoTransaction, empty_db)
   \<and> setExecutionPayload no_withdrawals ctx_without_tx
        (Some (example_block 7 (Some (example_payload (replicate 32 9) None (Some 7))))) empty_db
       = (Some ErrNoTransaction, empty_db)"
proof -
  have h: "tx ctx_without_tx = None" by (simp add: example_defs)
  show ?thesis
    using h writes_need_transaction [OF h, of "Some example_genesis" empty_db
        "''SECONDS_PER_SLOT''" "VDuration 12000000000" no_withdrawals
        "Some (example_block 7 (Some (example_payload (replicate 32 9) None (Some 7))))"]
    by simp
qed

theorem empty_payload_is_skipped_witness:
  "setExecutionPayload no_withdrawals (ctx_with accepting_tx)
     (Some (example_block 7 (Some (example_payload (replicate 32 0) None (Some 7))))) empty_db
     = (None, empty_db)
   \<and> executionPayload accepting_tx (replicate 32 7)
       (snd (setExecutionPayload no_withdrawals (ctx_with accepting_tx)
         (Some (example_block 7 (Some (example_payload (replicate 32 0) None (Some 7))))) empty_db))
     = Inr None"
proof -
  have h: "tx (ctx_with accepting_tx) = Some accepting_tx" by (simp add: example_defs)
  have z: "ExecutionPayload (example_block 7 (Some (example_payload (replicate 32 0) None (Some 7)))) = None
     \<or> (\<exists>p. ExecutionPayload (example_block 7 (Some (example_payload (replicate 32 0) None (Some 7)))) = Some p
           \<and> BlockHash p = replicate 32 0)"
    by (simp add: example_defs)
  have r: "Root (example_block 7 (Some (example_payload (replicate 32 0) None (Some 7)))) = replicate 32 7"
    by (simp add: example_defs)
  have q: "exec_error accepting_tx (SelectExecutionPayload (replicate 32 7)) = None
     \<and> map_of (t_block_execution_payloads empty_db) (replicate 32 7) = None"
    by (simp add: example_defs)
  show ?thesis
    using empty_payload_is_skipped [OF h z, of no_withdrawals empty_db accepting_tx] q
    unfolding r by blast
qed

theorem nil_block_is_an_error_witness:
  "setExecutionPayload no_withdrawals (ctx_with refusing_tx) None empty_db
     = (Some (ErrorNew ''block missing''), empty_db)
   \<and> fst (setExecutionPayload no_withdrawals (ctx_with refusing_tx)
        (Some (example_block 7 None)) empty_db) = None
   \<and> fst (setExecutionPayload no_withdrawals (ctx_with refusing_tx)
        (Some (example_block 7 (Some (example_payload (replicate 32 9) None (Some 7))))) empty_db)
       \<noteq> None"
proof -
  have h: "tx (ctx_with refusing_tx) = Some refusing_tx" by (simp add: example_defs)
  have r: "\<forall>stmt. exec_error refusing_tx stmt = Some (StoreError ''refused'')"
    by (simp add: example_defs)
  have a: "ExecutionPayload (example_block 7 None) = None" by (simp add: example_defs)
  have b: "\<not> (ExecutionPayload (example_block 7 (Some (example_payload (replicate 32 9) None (Some 7)))) = None
     \<or> (\<exists>p. ExecutionPayload (example_block 7 (Some (example_payload (replicate 32 9) None (Some 7)))) = Some p
           \<and> BlockHash p = replicate 32 0))"
    by (simp add: example_defs)
  show ?thesis
    using nil_block_is_an_error [OF h, of no_withdrawals empty_db "StoreError ''refused''" "example_block 7 None"]
      nil_block_is_an_error [OF h, of no_withdrawals empty_db "StoreError ''refused''"
         "example_block 7 (Some (example_payload (replicate 32 9) None (Some 7)))"]
      r a b
    by blast
qed

lemma map_of_upsert: "map_of (upsert k v t) = (map_of t)(k \<mapsto> v)"
  by (induction t) (auto simp: fun_eq_iff)

lemma BigInt_NewFromBigInt: "BigInt (NewFromBigInt v 0) = v"
  by (simp add: BigInt_def NewFromBigInt_def)

lemma store_then_fetch:
  assumes "tx ctx = Some t" and "\<forall>stmt. exec_error t stmt = None"
    and "ExecutionPayload b = Some p" and "BlockHash p \<noteq> replicate 32 0"
    and "BaseFeePerGas p = Some fee"
    and "exec_error t' (SelectExecutionPayload (Root b)) = None"
    and "\<forall>row. scan_error t' row = None"
  shows "executionPayload t' (Root b) (snd (setExecutionPayload sw ctx (Some b) d)) =
     Inr (Some
       \<lparr>ParentHash = copy_array 32 (ParentHash p),
        FeeRecipient = copy_array 20 (FeeRecipient p),
        StateRoot = copy_array 32 (StateRoot p),
        ReceiptsRoot = copy_array 32 (ReceiptsRoot p),
        LogsBloom = copy_array 256 (LogsBloom p),
        PrevRandao = copy_array 32 (PrevRandao p),
        BlockNumber = BlockNumber p,
        GasLimit = GasLimit p,
        GasUsed = GasUsed p,
        Timestamp = Timestamp p,
        ExtraData = (case ExtraData p of None \<Rightarrow> None | Some x \<Rightarrow> if x = [] then None else Some x),
        BaseFeePerGas = Some fee,
        BlockHash = copy_array 32 (BlockHash p),
        ExcessDataGas = ExcessDataGas p\<rparr>)"
proof -
  obtain er w' where sw: "sw ctx b (t_withdrawals d) = (er, w')"
    by (cases "sw ctx b (t_withdrawals d)")
  show ?thesis
    using assms sw
    by (cases er; cases "ExtraData p")
       (simp_all add: setExecutionPayload_def Exec_def Let_def executionPayload_def
          QueryRow_Scan_def map_of_upsert payload_of_row_def BigInt_NewFromBigInt)
qed


text \<open>
  Claim C6. A payload stored within a transaction on a store that accepts the statement
  is fetched back with exactly the base fee it had, for every integer value of the fee:
  the fee goes through \<open>decimal.NewFromBigInt(fee, 0)\<close> and \<open>Decimal.BigInt\<close>, with no
  fixed-width integer in between.
\<close>

theorem base_fee_round_trip:
  assumes "tx ctx = Some t" and "\<forall>stmt. exec_error t stmt = None"
    and "ExecutionPayload b = Some p" and "BlockHash p \<noteq> replicate 32 0"
    and "BaseFeePerGas p = Some fee"
    and "exec_error t' (SelectExecutionPayload (Root b)) = None"
    and "\<forall>row. scan_error t' row = None"
  shows "\<exists>p'. executionPayload t' (Root b) (snd (setExecutionPayload sw ctx (Some b) d))
               = Inr (Some p')
            \<and> BaseFeePerGas p' = Some fee"
  using store_then_fetch [OF assms, of sw d] by simp

theorem base_fee_round_trip_witness:
  "\<exists>p'. executionPayload accepting_tx (replicate 32 7)
           (snd (setExecutionPayload no_withdrawals (ctx_with accepting_tx)
              (Some (example_block 7 (Some (example_payload (replicate 32 9) None (Some (2 ^ 200))))))
              empty_db))
          = Inr (Some p')
       \<and> BaseFeePerGas p' = Some (2 ^ 200)"
proof -
  let ?p = "example_payload (replicate 32 9) None (Some (2 ^ 200))"
  let ?b = "example_block 7 (Some ?p)"
  have 1: "tx (ctx_with accepting_tx) = Some accepting_tx" by (simp add: example_defs)
  have 2: "\<forall>stmt. exec_error accepting_tx stmt = None" by (simp add: example_defs)
  have 3: "ExecutionPayload ?b = Some ?p" by (simp add: example_defs)
  have 4: "BlockHash ?p \<noteq> replicate 32 0" by (simp add: example_defs)
  have 5: "BaseFeePerGas ?p = Some (2 ^ 200)" by (simp add: example_defs)
  have 6: "exec_error accepting_tx (SelectExecutionPayload (Root ?b)) = None"
    by (simp add: example_defs)
  have 7: "\<forall>row. scan_error accepting_tx row = None" by (simp add: example_defs)
  have r: "Root ?b = replicate 32 7" by (simp add: example_defs)
  show ?thesis
    using base_fee_round_trip [OF 1 2 3 4 5 6 7, of no_withdrawals empty_db]
    unfolding r .
qed

text \<open>
  Claim C7, as the code has it. \<open>setExecutionPayload\<close> passes the extra data to the store
  only when its length is positive, so an absent and an empty extra data are both stored
  as NULL and fetched as absent; a non-empty extra data is fetched as it was stored.
\<close>

theorem extra_data_round_trip:
  assumes "tx ctx = Some t" and "\<forall>stmt. exec_error t stmt = None"
    and "ExecutionPayload b = Some p" and "BlockHash p \<noteq> replicate 32 0"
    and "BaseFeePerGas p = Some fee"
    and "exec_error t' (SelectExecutionPayload (Root b)) = None"
    and "\<forall>row. scan_error t' row = None"
  shows "\<exists>p'. executionPayload t' (Root b) (snd (setExecutionPayload sw ctx (Some b) d))
               = Inr (Some p')
            \<and> ExtraData p' =
                (case ExtraData p of None \<Rightarrow> None | Some x \<Rightarrow> if x = [] then None else Some x)"
  using store_then_fetch [OF assms, of sw d] by simp

theorem extra_data_round_trip_witness:
  "\<exists>p'. executionPayload accepting_tx (replicate 32 7)
           (snd (setExecutionPayload no_withdrawals (ctx_with accepting_tx)
              (Some (example_block 7 (Some (example_payload (replicate 32 9) (Some [1, 2]) (Some 7)))))
              empty_db))
          = Inr (Some p')
       \<and> ExtraData p' = Some [1, 2]"
proof -
  let ?p = "example_payload (replicate 32 9) (Some [1, 2]) (Some 7)"
  let ?b = "example_block 7 (Some ?p)"
  have 1: "tx (ctx_with accepting_tx) = Some accepting_tx" by (simp add: example_defs)
  have 2: "\<forall>stmt. exec_error accepting_tx stmt = None" by (simp add: example_defs)
  have 3: "ExecutionPayload ?b = Some ?p" by (simp add: example_defs)
  have 4: "BlockHash ?p \<noteq> replicate 32 0" by (simp add: example_defs)
  have 5: "BaseFeePerGas ?p = Some 7" by (simp add: example_defs)
  have 6: "exec_error accepting_tx (SelectExecutionPayload (Root ?b)) = None"
    by (simp add: example_defs)
  have 7: "\<forall>row. scan_error accepting_tx row = None" by (simp add: example_defs)
  have r: "Root ?b = replicate 32 7" by (simp add: example_defs)
  have x: "ExtraData ?p = Some [1, 2]" by (simp add: example_defs)
  show ?thesis
    using extra_data_round_trip [OF 1 2 3 4 5 6 7, of no_withdrawals empty_db]
    unfolding r x by simp
qed

text \<open>
  The claim as stated fails: a payload with an empty but present extra data and the same
  payload with an absent extra data are different inputs, and the records fetched after
  storing the one and the other are equal, both with an absent extra data.
\<close>

theorem extra_data_empty_counterexample:
  "example_payload (replicate 32 9) (Some []) (Some 7)
     \<noteq> example_payload (replicate 32 9) None (Some 7)
   \<and> executionPayload accepting_tx (replicate 32 7)
       (snd (setExecutionPayload no_withdrawals (ctx_with accepting_tx)
          (Some (example_block 7 (Some (example_payload (replicate 32 9) (Some []) (Some 7)))))
          empty_db))
     = executionPayload accepting_tx (replicate 32 7)
       (snd (setExecutionPayload no_withdrawals (ctx_with accepting_tx)
          (Some (example_block 7 (Some (example_payload (replicate 32 9) None (Some 7)))))
          empty_db))
   \<and> map_sum id (map_option ExtraData)
       (executionPayload accepting_tx (replicate 32 7)
         (snd (setExecutionPayload no_withdrawals (ctx_with accepting_tx)
            (Some (example_block 7 (Some (example_payload (replicate 32 9) (Some []) (Some 7)))))
            empty_db)))
     = Inr (Some None)"
  by (simp add: example_defs setExecutionPayload_def Exec_def Let_def executionPayload_def
      QueryRow_Scan_def payload_of_row_def)

lemma fst_set_upsert: "fst ` set (upsert k v t) = insert k (fst ` set t)"
  by (simp add: dom_map_of_conv_image_fst [symmetric] map_of_upsert)

lemma distinct_upsert: "distinct (map fst t) \<Longrightarrow> distinct (map fst (upsert k v t))"
  by (induction t) (auto simp: fst_set_upsert)

lemma wf_payload_table_upsert:
  "wf_payload_table t \<Longrightarrow> length k = 32 \<Longrightarrow> wf_payload_table (upsert k v t)"
  by (auto simp: wf_payload_table_def distinct_upsert list_all_iff fst_set_upsert)

lemma setExecutionPayload_wf:
  assumes "wf_payload_table (t_block_execution_payloads d)"
    and "\<forall>b. blk = Some b \<longrightarrow> length (Root b) = 32"
  shows "wf_payload_table (t_block_execution_payloads (snd (setExecutionPayload sw ctx blk d)))"
  using assms
  by (auto simp: setExecutionPayload_def Exec_def Let_def wf_payload_table_upsert
      split: option.splits prod.splits)

lemma map_of_filter_roots:
  "map_of (filter (\<lambda>(r, row). r \<in> set roots) tbl) r =
     (if r \<in> set roots then map_of tbl r else None)"
  by (induction tbl) auto

lemma scan_rows_result:
  assumes "\<forall>row. scan_error t row = None"
    and "distinct (map fst rows)" and "\<forall>k \<in> fst ` set rows. length k = 32"
  shows "\<exists>res'. scan_rows t rows res = Inr res' \<and>
           (\<forall>r. res' r = (case map_of rows r of
                            Some row \<Rightarrow> Some (Some (payload_of_row row))
                          | None \<Rightarrow> res r))"
  using assms(2,3)
proof (induction rows arbitrary: res)
  case Nil
  then show ?case by simp
next
  case (Cons kr rows)
  obtain k row where kr: "kr = (k, row)" by (cases kr)
  have len: "copy_array 32 k = k" using Cons.prems kr by (simp add: copy_array_id)
  have k: "map_of rows k = None" using Cons.prems kr by (simp add: map_of_eq_None_iff)
  have d': "distinct (map fst rows)" using Cons.prems by simp
  have l': "\<forall>k \<in> fst ` set rows. length k = 32" using Cons.prems by simp
  obtain res' where r: "scan_rows t rows (res(k \<mapsto> Some (payload_of_row row))) = Inr res'"
    and v: "\<And>r. res' r = (case map_of rows r of
                            Some row' \<Rightarrow> Some (Some (payload_of_row row'))
                          | None \<Rightarrow> (res(k \<mapsto> Some (payload_of_row row))) r)"
    using Cons.IH [OF d' l', of "res(k \<mapsto> Some (payload_of_row row))"] by blast
  have "scan_rows t (kr # rows) res = Inr res'"
    using assms(1) r by (simp add: kr len)
  moreover have "res' r = (case map_of (kr # rows) r of
                            Some row' \<Rightarrow> Some (Some (payload_of_row row'))
                          | None \<Rightarrow> res r)" for r
    using v [of r] k by (auto simp: kr split: option.splits)
  ultimately show ?case by blast
qed

lemma executionPayloads_result:
  assumes "exec_error t (SelectExecutionPayloads roots) = None"
    and "\<forall>row. scan_error t row = None"
    and "wf_payload_table (t_block_execution_payloads d)"
  shows "\<exists>res. executionPayloads t roots d = Inr res \<and>
           (\<forall>r. res r = (if r \<in> set roots
                         then map_option (\<lambda>row. Some (payload_of_row row))
                                (map_of (t_block_execution_payloads d) r)
                         else None))"
proof -
  let ?rows = "filter (\<lambda>(r, row). r \<in> set roots) (t_block_execution_payloads d)"
  have d: "distinct (map fst ?rows)"
    using assms(3) by (simp add: wf_payload_table_def distinct_map_filter)
  have l: "\<forall>k \<in> fst ` set ?rows. length k = 32"
    using assms(3) by (auto simp: wf_payload_table_def list_all_iff)
  obtain res where r: "scan_rows t ?rows Map.empty = Inr res"
    and v: "\<And>r. res r = (case map_of ?rows r of
                            Some row \<Rightarrow> Some (Some (payload_of_row row))
                          | None \<Rightarrow> None)"
    using scan_rows_result [OF assms(2) d l, of Map.empty] by auto
  have "executionPayloads t roots d = Inr res"
    using assms(1) r by (simp add: executionPayloads_def)
  moreover have "res r = (if r \<in> set roots
                         then map_option (\<lambda>row. Some (payload_of_row row))
                                (map_of (t_block_execution_payloads d) r)
                         else None)" for r
    using v [of r] by (simp add: map_of_filter_roots split: option.splits)
  ultimately show ?thesis by blast
qed

text \<open>
  Claim C8. For a root without a stored row, the single fetch returns no payload and no
  error, and the batched fetch returns a map without that root: the root is not in the
  map's domain, so it is not mapped to a nil payload either. A requested root with a row
  is mapped to the payload built from its row. The query is taken to be accepted by the
  store, and the table to have unique 32-byte keys.
\<close>

theorem absent_rows_are_not_errors:
  assumes "exec_error t (SelectExecutionPayload r) = None"
    and "exec_error t (SelectExecutionPayloads roots) = None"
    and "\<forall>row. scan_error t row = None"
    and "wf_payload_table (t_block_execution_payloads d)"
    and "map_of (t_block_execution_payloads d) r = None"
  shows "executionPayload t r d = Inr None
       \<and> (\<exists>res. executionPayloads t roots d = Inr res
              \<and> res r = None \<and> r \<notin> dom res
              \<and> (\<forall>r' row. r' \<in> set roots \<and> map_of (t_block_execution_payloads d) r' = Some row
                     \<longrightarrow> res r' = Some (Some (payload_of_row row))))"
proof -
  obtain res where r: "executionPayloads t roots d = Inr res"
    and v: "\<And>r. res r = (if r \<in> set roots
                         then map_option (\<lambda>row. Some (payload_of_row row))
                                (map_of (t_block_execution_payloads d) r)
                         else None)"
    using executionPayloads_result [OF assms(2,3,4)] by auto
  have "res r = None" using v [of r] assms(5) by simp
  moreover have "res r' = Some (Some (payload_of_row row))"
    if "r' \<in> set roots \<and> map_of (t_block_execution_payloads d) r' = Some row" for r' row
    using v [of r'] that by simp
  ultimately show ?thesis
    using fetch_no_row [OF assms(1,5)] r by (auto simp: dom_def)
qed


lemma two_rows_table:
  "\<exists>R1 R3. t_block_execution_payloads two_rows_db = [(replicate 32 1, R1), (replicate 32 3, R3)]
     \<and> f_base_fee_per_gas R1 = NewFromBigInt 9 0
     \<and> f_base_fee_per_gas R3 = NewFromBigInt 7 0"
  by (simp add: two_rows_db_def example_defs setExecutionPayload_def Exec_def Let_def)

theorem absent_rows_are_not_errors_witness:
  "executionPayload accepting_tx (replicate 32 2) two_rows_db = Inr None
   \<and> (\<exists>res. executionPayloads accepting_tx [replicate 32 1, replicate 32 2, replicate 32 3]
               two_rows_db = Inr res
          \<and> res (replicate 32 2) = None
          \<and> replicate 32 2 \<notin> dom res
          \<and> map_option (map_option BaseFeePerGas) (res (replicate 32 1)) = Some (Some (Some 9))
          \<and> map_option (map_option BaseFeePerGas) (res (replicate 32 3)) = Some (Some (Some 7)))"
proof -
  let ?roots = "[replicate 32 1, replicate 32 2, replicate 32 3] :: byte list list"
  obtain R1 R3 where tbl:
    "t_block_execution_payloads two_rows_db = [(replicate 32 1, R1), (replicate 32 3, R3)]"
    and f1: "f_base_fee_per_gas R1 = NewFromBigInt 9 0"
    and f3: "f_base_fee_per_gas R3 = NewFromBigInt 7 0"
    using two_rows_table by blast
  have 1: "exec_error accepting_tx (SelectExecutionPayload (replicate 32 2)) = None"
    by (simp add: example_defs)
  have 2: "exec_error accepting_tx (SelectExecutionPayloads ?roots) = None"
    by (simp add: example_defs)
  have 3: "\<forall>row. scan_error accepting_tx row = None" by (simp add: example_defs)
  have 4: "wf_payload_table (t_block_execution_payloads two_rows_db)"
    by (simp add: tbl wf_payload_table_def)
  have 5: "map_of (t_block_execution_payloads two_rows_db) (replicate 32 2) = None"
    by (simp add: tbl)
  have a: "replicate 32 1 \<in> set ?roots
            \<and> map_of (t_block_execution_payloads two_rows_db) (replicate 32 1) = Some R1"
    by (simp add: tbl)
  have c: "replicate 32 3 \<in> set ?roots
            \<and> map_of (t_block_execution_payloads two_rows_db) (replicate 32 3) = Some R3"
    by (simp add: tbl)
  have b1: "BaseFeePerGas (payload_of_row R1) = Some 9"
    by (simp add: payload_of_row_def f1 BigInt_NewFromBigInt)
  have b3: "BaseFeePerGas (payload_of_row R3) = Some 7"
    by (simp add: payload_of_row_def f3 BigInt_NewFromBigInt)
  obtain res where r: "executionPayloads accepting_tx ?roots two_rows_db = Inr res"
    and n: "res (replicate 32 2) = None" "replicate 32 2 \<notin> dom res"
    and v: "\<And>r' row. r' \<in> set ?roots \<and> map_of (t_block_execution_payloads two_rows_db) r' = Some row
              \<Longrightarrow> res r' = Some (Some (payload_of_row row))"
    and s: "executionPayload accepting_tx (replicate 32 2) two_rows_db = Inr None"
    using absent_rows_are_not_errors [OF 1 2 3 4 5] by blast
  have "res (replicate 32 1) = Some (Some (payload_of_row R1))" using v [OF a] .
  moreover have "res (replicate 32 3) = Some (Some (payload_of_row R3))" using v [OF c] .
  ultimately show ?thesis using r n s b1 b3 by simp
qed

lemma is_hex_digit_iff: "is_hex_digit c \<longleftrightarrow> fromHexChar c \<noteq> None"
proof
  assume "is_hex_digit c"
  then show "fromHexChar c \<noteq> None"
    by (auto simp: is_hex_digit_def fromHexChar_def)
next
  assume a: "fromHexChar c \<noteq> None"
  define k where "k = (of_char c :: nat)"
  have c: "c = char_of k" by (simp add: k_def)
  from a have "(48 \<le> k \<and> k \<le> 57) \<or> (97 \<le> k \<and> k \<le> 102) \<or> (65 \<le> k \<and> k \<le> 70)"
    by (auto simp: fromHexChar_def k_def Let_def split: if_splits)
  then have "k \<in> {48, 49, 50, 51, 52, 53, 54, 55, 56, 57, 97, 98, 99, 100, 101, 102,
                   65, 66, 67, 68, 69, 70}"
    by simp arith
  then show "is_hex_digit c"
    unfolding c is_hex_digit_def by (auto simp: char_of_eq_iff)
qed

lemma valid_hex_decodes:
  "valid_hex s \<Longrightarrow> \<exists>bs. DecodeString s = Some bs \<and> length bs = length s div 2"
proof (induction s rule: DecodeString.induct)
  case 1
  then show ?case by simp
next
  case (2 p)
  then show ?case by (simp add: valid_hex_def)
next
  case (3 p q rest)
  from "3.prems" obtain a b where a: "fromHexChar p = Some a" and b: "fromHexChar q = Some b"
    and v: "valid_hex rest"
    by (auto simp: valid_hex_def is_hex_digit_iff)
  from "3.IH" [OF a b v] show ?case by (auto simp: a b)
qed

lemma decodes_valid_hex: "DecodeString s = Some bs \<Longrightarrow> valid_hex s"
proof (induction s arbitrary: bs rule: DecodeString.induct)
  case 1
  then show ?case by (simp add: valid_hex_def)
next
  case (2 p)
  then show ?case by simp
next
  case (3 p q rest)
  then show ?case
    by (auto simp: valid_hex_def is_hex_digit_iff split: option.splits)
qed

text \<open>
  Claim C10. Under a key that begins with \<open>DOMAIN_\<close> or ends in \<open>_FORK_VERSION\<close>, a stored
  value that is a valid hexadecimal string of any length, with or without a leading
  \<open>0x\<close>, decodes to a 4-byte array: the first four decoded bytes, or all of them followed
  by zero bytes when there are fewer than four. A string of decimal digits of even length
  is such a value, and decodes to bytes under these keys.
\<close>

theorem domain_and_version_take_any_hex:
  assumes "HasPrefix key ''DOMAIN_'' \<or> HasSuffix key ''_FORK_VERSION''"
    and "valid_hex (TrimPrefix val ''0x'')"
  shows "\<exists>bs. DecodeString (TrimPrefix val ''0x'') = Some bs
            \<and> length bs = length (TrimPrefix val ''0x'') div 2
            \<and> dbValToSpec key val =
                VFixed (if HasPrefix key ''DOMAIN_'' then Phase0_DomainType else Phase0_Version)
                  (take 4 bs @ replicate (4 - length bs) 0)
            \<and> length (take 4 bs @ replicate (4 - length bs) (0 :: byte)) = 4"
proof -
  obtain bs where d: "DecodeString (TrimPrefix val ''0x'') = Some bs"
    and l: "length bs = length (TrimPrefix val ''0x'') div 2"
    using valid_hex_decodes [OF assms(2)] by blast
  have "dbValToSpec key val =
          VFixed (if HasPrefix key ''DOMAIN_'' then Phase0_DomainType else Phase0_Version)
            (take 4 bs @ replicate (4 - length bs) 0)"
    using assms(1) d by (auto simp: dbValToSpec_def dbValToSpec_forks_def copy_array_def)
  then show ?thesis using d l by auto
qed

theorem domain_and_version_take_any_hex_witness:
  "dbValToSpec ''DOMAIN_VOLUNTARY_EXIT'' ''12'' = VFixed Phase0_DomainType [18, 0, 0, 0]
   \<and> dbValToSpec ''ALTAIR_FORK_VERSION'' ''0x0102030405'' = VFixed Phase0_Version [1, 2, 3, 4]"
proof -
  have k1: "HasPrefix ''DOMAIN_VOLUNTARY_EXIT'' ''DOMAIN_'' \<or> HasSuffix ''DOMAIN_VOLUNTARY_EXIT'' ''_FORK_VERSION''"
    by (simp add: HasPrefix_def)
  have v1: "valid_hex (TrimPrefix ''12'' ''0x'')"
    by (simp add: valid_hex_def is_hex_digit_def TrimPrefix_def HasPrefix_def)
  have d1: "DecodeString (TrimPrefix ''12'' ''0x'') = Some [18]"
    by (simp add: TrimPrefix_def HasPrefix_def fromHexChar_def)
  have k2: "HasPrefix ''ALTAIR_FORK_VERSION'' ''DOMAIN_'' \<or> HasSuffix ''ALTAIR_FORK_VERSION'' ''_FORK_VERSION''"
    by (simp add: HasSuffix_def)
  have n2: "\<not> HasPrefix ''ALTAIR_FORK_VERSION'' ''DOMAIN_''"
    by (simp add: HasPrefix_def)
  have v2: "valid_hex (TrimPrefix ''0x0102030405'' ''0x'')"
    by (simp add: valid_hex_def is_hex_digit_def TrimPrefix_def HasPrefix_def)
  have d2: "DecodeString (TrimPrefix ''0x0102030405'' ''0x'') = Some [1, 2, 3, 4, 5]"
    by (simp add: TrimPrefix_def HasPrefix_def fromHexChar_def)
  have r1: "dbValToSpec ''DOMAIN_VOLUNTARY_EXIT'' ''12'' =
      VFixed (if HasPrefix ''DOMAIN_VOLUNTARY_EXIT'' ''DOMAIN_'' then Phase0_DomainType else Phase0_Version)
        (take 4 [18] @ replicate (4 - length [18 :: byte]) 0)"
    using domain_and_version_take_any_hex [OF k1 v1] unfolding d1 by (metis option.inject)
  have r2: "dbValToSpec ''ALTAIR_FORK_VERSION'' ''0x0102030405'' =
      VFixed (if HasPrefix ''ALTAIR_FORK_VERSION'' ''DOMAIN_'' then Phase0_DomainType else Phase0_Version)
        (take 4 [1, 2, 3, 4, 5] @ replicate (4 - length [1, 2, 3, 4, 5 :: byte]) 0)"
    using domain_and_version_take_any_hex [OF k2 v2] unfolding d2 by (metis option.inject)
  have p1: "HasPrefix ''DOMAIN_VOLUNTARY_EXIT'' ''DOMAIN_''" by (simp add: HasPrefix_def)
  show ?thesis
    unfolding r1 r2 using p1 n2 by (simp add: eval_nat_numeral)
qed

section \<open>Round trips of the chain-spec codec\<close>

lemmas key_patterns = domain_key_def fork_version_key_def time_key_def duration_key_def

lemma ParseUint_0: "ParseUint ''0'' = Some 0"
  by (simp add: ParseUint_def is_digit_def maxUint64_def)

lemma round_trip_uint:
  assumes "\<not> domain_key key" "\<not> fork_version_key key" "\<not> time_key key" "\<not> duration_key key"
  shows "dbValToSpec key (digits10 (unat v)) = VUint64 v"
proof (cases "digits10 (unat v) = ''0''")
  case True
  then have "v = 0" using ParseUint_digits10 [of v] ParseUint_0 by simp
  with True show ?thesis by (simp add: decode_zero)
next
  case False
  have "v \<noteq> 0"
  proof
    assume "v = 0"
    then have "digits10 (unat v) = ''0''"
      by (simp add: digits10.simps strconv_digits_def)
    with False show False by simp
  qed
  then show ?thesis
    using assms False
    by (simp add: dbValToSpec_blocks key_patterns digits10_no_0x ParseUint_digits10)
qed

lemma round_trip_bytes:
  assumes "\<not> domain_key key" "\<not> fork_version_key key" "b \<noteq> []"
  shows "dbValToSpec key (fmtSbx b) = VBytes b"
  using assms
  by (simp add: dbValToSpec_def dbValToSpec_forks_def dbValToSpec_hex_def key_patterns
      fmtSbx_prefix fmtSbx_decodes)

lemma round_trip_four_bytes:
  assumes "domain_key key \<or> fork_version_key key" "length b = 4"
  shows "class_value (dbValToSpec key (fmtSbx b)) = ByteString b"
  using assms
  by (auto simp: dbValToSpec_def dbValToSpec_forks_def key_patterns fmtSbx_decodes copy_array_id)

lemma round_trip_duration:
  assumes "duration_key key" "\<not> domain_key key" "\<not> fork_version_key key" "\<not> time_key key"
    and "0 < sint d" "sint d mod 1000000000 = 0"
  shows "dbValToSpec key (dbVal_of (VDuration d)) = VDuration d"
proof -
  define n where "n = sint d div 1000000000"
  have "1000000000 dvd sint d"
    using assms(6) by (rule iffD1 [OF mod_eq_0_iff_dvd])
  then have sd: "sint d = n * 1000000000"
    unfolding n_def by simp
  have n0: "0 < n" using assms(5) sd by simp
  have "sint d < 2 ^ 63" using sint_lt [of d] by simp
  then have nb: "n < 2 ^ 63" using sd n0 by simp
  have enc: "dbVal_of (VDuration d) = digits10 (nat n)"
    using n0 by (simp add: Seconds_whole [OF sd] FormatInt_def)
  have le: "nat n \<le> maxUint64" using nb by (simp add: maxUint64_def)
  have pu: "ParseUint (digits10 (nat n)) = Some (of_nat (nat n))"
    by (rule ParseUint_digits10_nat [OF le])
  have w: "(of_nat (nat n) :: 64 word) = of_int n" using n0 by simp
  have "(of_int n :: 64 word) * Second = of_int (sint d)"
    by (simp add: sd Second_def)
  then have prod: "(of_int n :: 64 word) * Second = d" by simp
  have nz: "(of_int n :: 64 word) \<noteq> 0"
  proof
    assume "(of_int n :: 64 word) = 0"
    then have "unat (of_nat (nat n) :: 64 word) = 0" using w by simp
    moreover have "nat n < 2 ^ 64" using nb by simp
    ultimately have "nat n = 0" using unat_of_nat64 [of "nat n"] by simp
    with n0 show False by simp
  qed
  show ?thesis
    unfolding enc using assms(1-4) pu nz prod
    by (simp add: dbValToSpec_blocks key_patterns digits10_no_0x w)
qed

lemma round_trip_time:
  assumes "time_key key" "\<not> domain_key key" "Unix t \<noteq> 0"
  shows "dbValToSpec key (dbVal_of (VTime t)) = VTime (Time (Unix t) 0)"
  using assms TIME_not_FORK_VERSION [of key]
  by (simp add: dbValToSpec_def dbValToSpec_forks_def dbValToSpec_hex_def dbValToSpec_times_def
      key_patterns FormatInt_no_0x ParseInt_FormatInt_sint)

lemma round_trip_string:
  assumes "DecodeString (TrimPrefix s ''0x'') = None" "ParseInt s = None" "ParseUint s = None"
  shows "dbValToSpec key s = VString s"
proof -
  have "s \<noteq> ''0''" using assms(3) ParseUint_0 by auto
  then show ?thesis using assms by (simp add: dbValToSpec_blocks)
qed

text \<open>
  Claim C2, as the code has it. For a key and a value in the unambiguous range,
  \<open>dbValToSpec\<close> applied to the string that \<open>SetChainSpecValue\<close> stores gives a value of
  the same class and content.
\<close>

theorem round_trip_in_unambiguous_range:
  assumes "unambiguous key v"
  shows "class_value (dbValToSpec key (dbVal_of v)) = class_value v"
proof (cases v)
  case (VCounter k w)
  then show ?thesis using assms by (simp add: round_trip_uint)
next
  case (VFixed k b)
  then show ?thesis
    using assms
    by (cases "domain_key key \<or> fork_version_key key")
       (simp_all add: round_trip_four_bytes round_trip_bytes)
next
  case (VBytes b)
  then show ?thesis
    using assms
    by (cases "domain_key key \<or> fork_version_key key")
       (simp_all add: round_trip_four_bytes round_trip_bytes)
next
  case (VDuration d)
  then show ?thesis using assms round_trip_duration [of key d] by simp
next
  case (VTime t)
  then show ?thesis using assms round_trip_time [of key t] by simp
next
  case (VUint64 w)
  then show ?thesis using assms by (simp add: round_trip_uint)
next
  case (VString s)
  then show ?thesis using assms by (simp add: round_trip_string)
qed

lemmas string_functions = HasPrefix_def HasSuffix_def TrimPrefix_def

theorem round_trip_in_unambiguous_range_witness:
  "class_value (dbValToSpec ''MAX_COMMITTEES_PER_SLOT'' (dbVal_of (VCounter Phase0_Slot 64)))
     = UnsignedInteger 64
   \<and> class_value (dbValToSpec ''DEPOSIT_CONTRACT_ADDRESS'' (dbVal_of (VBytes [0, 33, 154, 181, 64])))
     = ByteString [0, 33, 154, 181, 64]
   \<and> class_value (dbValToSpec ''DOMAIN_BEACON_ATTESTER'' (dbVal_of (VFixed Phase0_DomainType [1, 0, 0, 0])))
     = ByteString [1, 0, 0, 0]
   \<and> class_value (dbValToSpec ''SECONDS_PER_SLOT'' (dbVal_of (VDuration 12000000000)))
     = DurationNanoseconds 12000000000
   \<and> class_value (dbValToSpec ''MIN_GENESIS_TIME'' (dbVal_of (VTime (Time 1606824023 0))))
     = TimestampSeconds 1606824023
   \<and> class_value (dbValToSpec ''CONFIG_NAME'' (dbVal_of (VString ''mainnet'')))
     = OpaqueString ''mainnet''"
proof -
  have 1: "unambiguous ''MAX_COMMITTEES_PER_SLOT'' (VCounter Phase0_Slot 64)"
    by (simp add: key_patterns string_functions)
  have 2: "unambiguous ''DEPOSIT_CONTRACT_ADDRESS'' (VBytes [0, 33, 154, 181, 64])"
    by (simp add: key_patterns string_functions)
  have 3: "unambiguous ''DOMAIN_BEACON_ATTESTER'' (VFixed Phase0_DomainType [1, 0, 0, 0])"
    by (simp add: key_patterns string_functions)
  have 4: "unambiguous ''SECONDS_PER_SLOT'' (VDuration 12000000000)"
    by (simp add: key_patterns string_functions)
  have 5: "unambiguous ''MIN_GENESIS_TIME'' (VTime (Time 1606824023 0))"
    by (simp add: key_patterns string_functions)
  have 6: "unambiguous ''CONFIG_NAME'' (VString ''mainnet'')"
    by (simp add: string_functions fromHexChar_def ParseInt_def ParseUint_def is_digit_def)
  show ?thesis
    using round_trip_in_unambiguous_range [OF 1] round_trip_in_unambiguous_range [OF 2]
      round_trip_in_unambiguous_range [OF 3] round_trip_in_unambiguous_range [OF 4]
      round_trip_in_unambiguous_range [OF 5] round_trip_in_unambiguous_range [OF 6]
    by simp
qed


text \<open>
  The claim as stated fails, also on the two cases it names. A duration of minus five
  seconds under a duration key is stored as \<open>-5\<close> and read back as a string; a non-zero
  timestamp under a key with the time suffix that also begins with \<open>DOMAIN_\<close> is read
  back as a 4-byte domain type. Further, a counter under a time key is read back as a
  timestamp, an empty byte slice is stored as the empty string and read back as a string,
  five bytes under a domain key are cut to four, and the string \<open>12\<close> is read back as an
  integer.
\<close>

lemma minus_five_seconds: "dbVal_of (VDuration (- 5000000000)) = ''-5''"
proof -
  have "sint (- 5000000000 :: 64 word) = - 5 * 1000000000" by simp
  then have "float_to_int (Seconds (- 5000000000)) = - 5" by (rule Seconds_whole)
  then show ?thesis by (simp add: FormatInt_def digits10.simps strconv_digits_def)
qed

lemmas evaluation =
  dbValToSpec_blocks string_functions ParseUint_def ParseInt_def is_digit_def maxUint64_def
  fromHexChar_def copy_array_def FormatInt_def digits10.simps strconv_digits_def fmtSbx_def
  ldigits_def drop_bit_eq_div Second_def

theorem round_trip_counterexample:
  "dbValToSpec ''SECONDS_PER_SLOT'' (dbVal_of (VDuration (- 5000000000))) = VString ''-5''
   \<and> dbValToSpec ''DOMAIN_GENESIS_TIME'' (dbVal_of (VTime (Time 1606824023 0)))
       = VFixed Phase0_DomainType [22, 6, 130, 64]
   \<and> dbValToSpec ''MIN_GENESIS_TIME'' (dbVal_of (VCounter Phase0_Slot 5)) = VTime (Time 5 0)
   \<and> dbValToSpec ''DEPOSIT_CONTRACT_ADDRESS'' (dbVal_of (VBytes [])) = VString []
   \<and> dbValToSpec ''DOMAIN_DEPOSIT'' (dbVal_of (VBytes [1, 2, 3, 4, 5]))
       = VFixed Phase0_DomainType [1, 2, 3, 4]
   \<and> dbValToSpec ''CONFIG_NAME'' (dbVal_of (VString ''12'')) = VUint64 12"
proof -
  have 1: "dbValToSpec ''SECONDS_PER_SLOT'' (dbVal_of (VDuration (- 5000000000))) = VString ''-5''"
    unfolding minus_five_seconds by (simp add: evaluation)
  have 2: "dbValToSpec ''DOMAIN_GENESIS_TIME'' (dbVal_of (VTime (Time 1606824023 0)))
       = VFixed Phase0_DomainType [22, 6, 130, 64]"
    by (simp add: evaluation)
  have 3: "dbValToSpec ''MIN_GENESIS_TIME'' (dbVal_of (VCounter Phase0_Slot 5)) = VTime (Time 5 0)"
    by (simp add: evaluation)
  have 4: "dbValToSpec ''DEPOSIT_CONTRACT_ADDRESS'' (dbVal_of (VBytes [])) = VString []"
    by (simp add: evaluation)
  have 5: "dbValToSpec ''DOMAIN_DEPOSIT'' (dbVal_of (VBytes [1, 2, 3, 4, 5]))
       = VFixed Phase0_DomainType [1, 2, 3, 4]"
    by (simp add: evaluation)
  have 6: "dbValToSpec ''CONFIG_NAME'' (dbVal_of (VString ''12'')) = VUint64 12"
    by (simp add: evaluation)
  show ?thesis using 1 2 3 4 5 6 by blast
qed

section \<open>The parsers and the hex decoder meet their descriptions\<close>

lemma decimal_digit_iff: "decimal_digit c \<longleftrightarrow> is_digit c"
proof
  assume "decimal_digit c"
  then show "is_digit c" by (auto simp: decimal_digit_def is_digit_def)
next
  assume a: "is_digit c"
  define k where "k = (of_char c :: nat)"
  have c: "c = char_of k" by (simp add: k_def)
  from a have "48 \<le> k \<and> k \<le> 57" by (simp add: is_digit_def k_def)
  then have "k \<in> {48, 49, 50, 51, 52, 53, 54, 55, 56, 57}" by simp arith
  then show "decimal_digit c"
    unfolding c decimal_digit_def by (auto simp: char_of_eq_iff)
qed

lemma foldl_digits_ge: "n \<le> foldl (\<lambda>a c. 10 * a + digit_value c) n s"
proof (induction s arbitrary: n)
  case Nil
  then show ?case by simp
next
  case (Cons c s)
  have "n \<le> 10 * n + digit_value c" by simp
  also have "\<dots> \<le> foldl (\<lambda>a c. 10 * a + digit_value c) (10 * n + digit_value c) s"
    by (rule Cons.IH)
  finally show ?case by simp
qed

lemma parse_digits_spec:
  "n \<le> maxUint64 \<Longrightarrow> parse_digits n s =
     (if list_all decimal_digit s \<and> foldl (\<lambda>a c. 10 * a + digit_value c) n s \<le> maxUint64
      then Some (foldl (\<lambda>a c. 10 * a + digit_value c) n s) else None)"
proof (induction s arbitrary: n)
  case Nil
  then show ?case by simp
next
  case (Cons c s)
  let ?f = "\<lambda>a c. 10 * a + digit_value c"
  show ?case
  proof (cases "is_digit c")
    case False
    then show ?thesis by (simp add: decimal_digit_iff)
  next
    case True
    have dv: "(of_char c :: nat) - 48 = digit_value c" by (simp add: digit_value_def)
    have ge: "10 * n + digit_value c \<le> foldl ?f (10 * n + digit_value c) s"
      by (rule foldl_digits_ge)
    show ?thesis
    proof (cases "maxUint64 div 10 + 1 \<le> n")
      case c1: True
      then have "maxUint64 < 10 * n + digit_value c" by (simp add: maxUint64_def)
      with ge have "\<not> foldl ?f (10 * n + digit_value c) s \<le> maxUint64" by simp
      with True c1 show ?thesis by simp
    next
      case c1: False
      show ?thesis
      proof (cases "maxUint64 < 10 * n + digit_value c")
        case c2: True
        with ge have "\<not> foldl ?f (10 * n + digit_value c) s \<le> maxUint64" by simp
        with True c1 c2 show ?thesis by (simp add: dv Let_def mult.commute)
      next
        case c2: False
        then have "10 * n + digit_value c \<le> maxUint64" by simp
        from Cons.IH [OF this] True c1 c2 show ?thesis
          by (simp add: dv Let_def mult.commute decimal_digit_iff)
      qed
    qed
  qed
qed

lemma ParseUint_spec: "ParseUint s = map_option of_nat (unsigned_integer s)"
  by (auto simp: ParseUint_def unsigned_integer_def decimal_number_def parse_digits_spec
      maxUint64_def)

lemma unsigned_integer_less: "unsigned_integer s = Some n \<Longrightarrow> n < 2 ^ 64"
  by (auto simp: unsigned_integer_def split: option.splits if_splits)

lemma sint_of_int64:
  assumes "- (2 ^ 63) \<le> i" "i < 2 ^ 63"
  shows "sint (of_int i :: 64 word) = i"
  using assms by (simp add: signed_of_int signed_take_bit_int_eq_self)

lemma of_int64_eq_0:
  assumes "- (2 ^ 63) \<le> i" "i < 2 ^ 63"
  shows "(of_int i :: 64 word) = 0 \<longleftrightarrow> i = 0"
proof
  assume "(of_int i :: 64 word) = 0"
  then have "sint (of_int i :: 64 word) = 0" by simp
  then show "i = 0" using sint_of_int64 [OF assms] by simp
qed simp

lemma of_nat64_eq_0:
  assumes "n < 2 ^ 64"
  shows "(of_nat n :: 64 word) = 0 \<longleftrightarrow> n = 0"
proof
  assume "(of_nat n :: 64 word) = 0"
  then have "unat (of_nat n :: 64 word) = 0" by simp
  then show "n = 0" using unat_of_nat64 [OF assms] by simp
qed simp

lemma decimal_number_Cons_digit:
  "decimal_number (c # cs) = Some n \<Longrightarrow> c \<noteq> CHR ''-'' \<and> c \<noteq> CHR ''+''"
  by (auto simp: decimal_number_def decimal_digit_def split: if_splits)

lemma ParseUint_decimal:
  "ParseUint s =
     (case decimal_number s of
        Some n \<Rightarrow> if n < 2 ^ 64 then Some (of_nat n) else None
      | None \<Rightarrow> None)"
  by (simp add: ParseUint_spec unsigned_integer_def split: option.splits)

lemma ParseInt_spec: "ParseInt s = map_option of_int (signed_integer s)"
proof (cases s)
  case Nil
  then show ?thesis by (simp add: ParseInt_def signed_integer_def)
next
  case (Cons c cs)
  let ?neg = "c = CHR ''-''"
  define s' where "s' = (if c = CHR ''+'' \<or> c = CHR ''-'' then cs else s)"
  have P: "ParseInt s =
      (case ParseUint s' of
         None \<Rightarrow> None
       | Some un \<Rightarrow>
           if \<not> ?neg \<and> unat un \<ge> 2 ^ 63 then None
           else if ?neg \<and> unat un > 2 ^ 63 then None
           else Some (if ?neg then - un else un))"
    by (simp add: Cons ParseInt_def s'_def Let_def)
  have S: "signed_integer s =
      (case decimal_number s' of
         None \<Rightarrow> None
       | Some n \<Rightarrow>
           if ?neg then (if n \<le> 2 ^ 63 then Some (- int n) else None)
           else (if n < 2 ^ 63 then Some (int n) else None))"
    by (cases "c = CHR ''-''"; cases "c = CHR ''+''")
       (simp_all add: Cons signed_integer_def s'_def split: option.splits)
  show ?thesis
  proof (cases "decimal_number s'")
    case None
    then show ?thesis unfolding P S by (simp add: ParseUint_decimal)
  next
    case (Some n)
    show ?thesis
    proof (cases "n < 2 ^ 64")
      case False
      then have "\<not> n \<le> 2 ^ 63" "\<not> n < 2 ^ 63" by simp_all
      with Some False show ?thesis unfolding P S by (simp add: ParseUint_decimal)
    next
      case True
      have u: "ParseUint s' = Some (of_nat n)"
        using Some True by (simp add: ParseUint_decimal)
      have un: "unat (of_nat n :: 64 word) = n" by (rule unat_of_nat64 [OF True])
      show ?thesis
        unfolding P S u Some
        by (cases ?neg; cases "n < 2 ^ 63"; cases "n = 2 ^ 63") (simp_all add: un)
    qed
  qed
qed

lemma signed_integer_range:
  "signed_integer s = Some i \<Longrightarrow> - (2 ^ 63) \<le> i \<and> i < 2 ^ 63"
  by (auto simp: signed_integer_def split: list.splits option.splits if_splits)


lemma nibbles_join:
  assumes "x < 16" "y < 16"
  shows "push_bit 4 (of_nat x :: byte) OR of_nat y = of_nat (16 * x + y)"
proof -
  have "take_bit 4 y = y" using assms(2) by (simp add: take_bit_nat_eq_self)
  then have y: "take_bit 4 (of_nat y :: byte) = of_nat y" by (simp add: take_bit_of_nat)
  have "push_bit 4 (of_nat x :: byte) + take_bit 4 (of_nat y) =
        push_bit 4 (of_nat x) OR take_bit 4 (of_nat y)"
    by (rule disjunctive_add) (auto simp: bit_simps)
  then have "push_bit 4 (of_nat x :: byte) OR of_nat y = push_bit 4 (of_nat x) + of_nat y"
    by (simp add: y)
  also have "\<dots> = of_nat (16 * x + y)"
    by (simp add: push_bit_eq_mult)
  finally show ?thesis .
qed

lemma fromHexChar_value:
  assumes "fromHexChar c = Some a"
  shows "a = of_nat (hex_digit_value c) \<and> hex_digit_value c < 16"
proof -
  have "is_hex_digit c" using assms by (simp add: is_hex_digit_iff)
  then have "c = CHR ''0'' \<or> c = CHR ''1'' \<or> c = CHR ''2'' \<or> c = CHR ''3'' \<or> c = CHR ''4''
      \<or> c = CHR ''5'' \<or> c = CHR ''6'' \<or> c = CHR ''7'' \<or> c = CHR ''8'' \<or> c = CHR ''9''
      \<or> c = CHR ''a'' \<or> c = CHR ''b'' \<or> c = CHR ''c'' \<or> c = CHR ''d'' \<or> c = CHR ''e''
      \<or> c = CHR ''f'' \<or> c = CHR ''A'' \<or> c = CHR ''B'' \<or> c = CHR ''C'' \<or> c = CHR ''D''
      \<or> c = CHR ''E'' \<or> c = CHR ''F''"
    by (simp add: is_hex_digit_def)
  then show ?thesis
    using assms
    by (elim disjE) (simp_all add: fromHexChar_def hex_digit_value_def)
qed

lemma DecodeString_spec:
  "DecodeString h = (if valid_hex h then Some (hex_bytes h) else None)"
proof (induction h rule: DecodeString.induct)
  case 1
  then show ?case by (simp add: valid_hex_def)
next
  case (2 p)
  then show ?case by (simp add: valid_hex_def)
next
  case (3 p q rest)
  show ?case
  proof (cases "fromHexChar p")
    case None
    then show ?thesis by (simp add: valid_hex_def is_hex_digit_iff)
  next
    case a: (Some a)
    show ?thesis
    proof (cases "fromHexChar q")
      case None
      then show ?thesis using a by (simp add: valid_hex_def is_hex_digit_iff)
    next
      case b: (Some b)
      have j: "push_bit 4 a OR b = of_nat (16 * hex_digit_value p + hex_digit_value q)"
        using fromHexChar_value [OF a] fromHexChar_value [OF b] nibbles_join by simp
      have v: "valid_hex (p # q # rest) \<longleftrightarrow> valid_hex rest"
        using a b by (simp add: valid_hex_def is_hex_digit_iff)
      show ?thesis
        using "3.IH" [OF a b] by (simp add: a b j v)
    qed
  qed
qed

lemma hex_decodes_eq: "hex_decodes val = DecodeString (TrimPrefix val ''0x'')"
  by (simp add: hex_decodes_def TrimPrefix_def Let_def numeral_2_eq_2 DecodeString_spec)

lemma four_bytes_eq: "four_bytes b = copy_array 4 b"
  by (simp add: four_bytes_def copy_array_def)

section \<open>The decoder and the eight rules\<close>

lemma first_match_Cons:
  "first_match (x # rest) = (case x of Some v \<Rightarrow> Some v | None \<Rightarrow> first_match rest)"
  by (cases x) simp_all

lemma meaning_integers:
  "meaning (dbValToSpec_integers val) =
     Some (case first_match [rule6 key val, rule7 key val] of
             Some v \<Rightarrow> v | None \<Rightarrow> D_String val)"
proof (cases "unsigned_integer val")
  case None
  then have "val \<noteq> ''0''" using ParseUint_0 by (auto simp: ParseUint_spec)
  with None show ?thesis
    by (simp add: dbValToSpec_integers_def ParseUint_spec rule6_def rule7_def)
next
  case (Some n)
  have lt: "n < 2 ^ 64" using Some by (rule unsigned_integer_less)
  show ?thesis
    using Some of_nat64_eq_0 [OF lt] unat_of_nat64 [OF lt]
    by (simp add: dbValToSpec_integers_def ParseUint_spec rule6_def rule7_def)
qed

lemma meaning_seconds:
  assumes "n \<noteq> 0" "n \<le> 9223372036"
  shows "meaning (VDuration (of_nat n * Second)) = Some (D_Duration n)"
proof -
  have lo: "- (2 ^ 63) \<le> int n * 1000000000" by simp
  have hi: "int n * 1000000000 < 2 ^ 63" using assms(2) by simp
  have "(of_nat n :: 64 word) * Second = of_int (int n * 1000000000)"
    by (simp add: Second_def)
  then have "sint ((of_nat n :: 64 word) * Second) = int n * 1000000000"
    using sint_of_int64 [OF lo hi] by simp
  then show ?thesis by simp
qed

lemma meaning_durations:
  assumes "HasPrefix key ''SECONDS_PER_'' \<or> HasSuffix key ''_DELAY'' \<longrightarrow>
           (\<forall>n. unsigned_integer val = Some n \<longrightarrow> n \<le> 9223372036)"
  shows "meaning (dbValToSpec_durations key val) =
     Some (case first_match [rule5 key val, rule6 key val, rule7 key val] of
             Some v \<Rightarrow> v | None \<Rightarrow> D_String val)"
proof (cases "HasPrefix key ''SECONDS_PER_'' \<or> HasSuffix key ''_DELAY''")
  case False
  then show ?thesis
    using meaning_integers [of val key]
    by (simp add: dbValToSpec_durations_def rule5_def)
next
  case True
  show ?thesis
  proof (cases "unsigned_integer val")
    case None
    then show ?thesis
      using True meaning_integers [of val key]
      by (simp add: dbValToSpec_durations_def rule5_def ParseUint_spec)
  next
    case (Some n)
    have lt: "n < 2 ^ 64" using Some by (rule unsigned_integer_less)
    have le: "n \<le> 9223372036" using assms True Some by simp
    show ?thesis
    proof (cases "n = 0")
      case z: True
      then show ?thesis
        using True Some meaning_integers [of val key]
        by (simp add: dbValToSpec_durations_def rule5_def ParseUint_spec)
    next
      case nz: False
      then show ?thesis
        using True Some of_nat64_eq_0 [OF lt] meaning_seconds [OF nz le]
        by (simp add: dbValToSpec_durations_def rule5_def ParseUint_spec)
    qed
  qed
qed

lemma meaning_times:
  assumes "HasPrefix key ''SECONDS_PER_'' \<or> HasSuffix key ''_DELAY'' \<longrightarrow>
           (\<forall>n. unsigned_integer val = Some n \<longrightarrow> n \<le> 9223372036)"
  shows "meaning (dbValToSpec_times key val) =
     Some (case first_match [rule4 key val, rule5 key val, rule6 key val, rule7 key val] of
             Some v \<Rightarrow> v | None \<Rightarrow> D_String val)"
proof (cases "HasSuffix key ''_TIME''")
  case False
  then show ?thesis
    using meaning_durations [OF assms]
    by (simp add: dbValToSpec_times_def rule4_def)
next
  case True
  show ?thesis
  proof (cases "signed_integer val")
    case None
    then show ?thesis
      using True meaning_durations [OF assms]
      by (simp add: dbValToSpec_times_def rule4_def ParseInt_spec)
  next
    case (Some i)
    have r: "- (2 ^ 63) \<le> i" "i < 2 ^ 63"
      using signed_integer_range [OF Some] by simp_all
    show ?thesis
      using True Some meaning_durations [OF assms] of_int64_eq_0 [OF r] sint_of_int64 [OF r]
      by (cases "i = 0") (simp_all add: dbValToSpec_times_def rule4_def ParseInt_spec)
  qed
qed

lemma meaning_hex:
  assumes "HasPrefix key ''SECONDS_PER_'' \<or> HasSuffix key ''_DELAY'' \<longrightarrow>
           (\<forall>n. unsigned_integer val = Some n \<longrightarrow> n \<le> 9223372036)"
  shows "meaning (dbValToSpec_hex key val) =
     Some (case first_match [rule3 key val, rule4 key val, rule5 key val, rule6 key val,
                             rule7 key val] of
             Some v \<Rightarrow> v | None \<Rightarrow> D_String val)"
  using meaning_times [OF assms]
  by (cases "HasPrefix val ''0x''"; cases "hex_decodes val")
     (simp_all add: dbValToSpec_hex_def rule3_def hex_decodes_eq [symmetric])

lemma meaning_forks:
  assumes "HasPrefix key ''SECONDS_PER_'' \<or> HasSuffix key ''_DELAY'' \<longrightarrow>
           (\<forall>n. unsigned_integer val = Some n \<longrightarrow> n \<le> 9223372036)"
  shows "meaning (dbValToSpec_forks key val) =
     Some (case first_match [rule2 key val, rule3 key val, rule4 key val, rule5 key val,
                             rule6 key val, rule7 key val] of
             Some v \<Rightarrow> v | None \<Rightarrow> D_String val)"
  using meaning_hex [OF assms]
  by (cases "HasSuffix key ''_FORK_VERSION''"; cases "hex_decodes val")
     (simp_all add: dbValToSpec_forks_def rule2_def hex_decodes_eq [symmetric] four_bytes_eq)

lemma decode_follows_rules:
  assumes "HasPrefix key ''SECONDS_PER_'' \<or> HasSuffix key ''_DELAY'' \<longrightarrow>
           (\<forall>n. unsigned_integer val = Some n \<longrightarrow> n \<le> 9223372036)"
  shows "meaning (dbValToSpec key val) = Some (Decode key val)"
  using meaning_forks [OF assms]
  by (cases "HasPrefix key ''DOMAIN_''"; cases "hex_decodes val")
     (simp_all add: dbValToSpec_def rule1_def Decode_def hex_decodes_eq [symmetric] four_bytes_eq)

lemmas rules =
  Decode_def rule1_def rule2_def rule3_def rule4_def rule5_def rule6_def rule7_def
  hex_decodes_def valid_hex_def is_hex_digit_def signed_integer_def unsigned_integer_def
  decimal_number_def decimal_digit_def digit_value_def string_functions

text \<open>
  Claim C1. \<open>Decode\<close> above is the total function of the claim: the eight rules in order,
  first match wins, the raw string when none applies. \<open>dbValToSpec\<close> returns what the rules
  give (lemma \<open>decode_follows_rules\<close>) as long as, under a duration key, the stored integer
  is at most 9223372036. Rule 5 promises a duration of that many seconds for every
  non-zero unsigned integer; the code multiplies in 64 bits without a range check. At the
  stored value \<open>9223372037\<close> under \<open>SECONDS_PER_SLOT\<close> the rules give a duration of
  9223372037 seconds and the code returns a duration of -9223372036709551616
  nanoseconds, which stands for no count of seconds.
\<close>

theorem duration_rule_overflows:
  "Decode ''SECONDS_PER_SLOT'' ''9223372037'' = D_Duration 9223372037
   \<and> dbValToSpec ''SECONDS_PER_SLOT'' ''9223372037'' = VDuration (- 9223372036709551616)
   \<and> sint (- 9223372036709551616 :: 64 word) = - 9223372036709551616
   \<and> meaning (dbValToSpec ''SECONDS_PER_SLOT'' ''9223372037'')
       \<noteq> Some (Decode ''SECONDS_PER_SLOT'' ''9223372037'')"
proof -
  have 1: "Decode ''SECONDS_PER_SLOT'' ''9223372037'' = D_Duration 9223372037"
    by (simp add: rules)
  have 2: "dbValToSpec ''SECONDS_PER_SLOT'' ''9223372037'' = VDuration (- 9223372036709551616)"
    by (simp add: evaluation)
  have 3: "sint (- 9223372036709551616 :: 64 word) = - 9223372036709551616"
    by simp
  have 4: "meaning (VDuration (- 9223372036709551616)) = None"
    by (simp add: 3)
  show ?thesis unfolding 2 using 1 3 4 by simp
qed

lemma overflow_to_zero:
  "dbValToSpec ''SECONDS_PER_SLOT'' ''36028797018963968'' = VDuration 0"
  by (simp add: evaluation)

end
